theory Spec2Isabelle
  imports Main "HOL-Library.Word"
begin

unbundle bit_operations_syntax

section \<open>The lazy writer of the cache manager (lazyrite.c)\<close>

text \<open>
  A shallow embedding of \<^verbatim>\<open>CcScheduleLazyWriteScan\<close>, \<^verbatim>\<open>CcScanDpc\<close>,
  \<^verbatim>\<open>CcWaitForCurrentLazyWriterActivity\<close>, \<^verbatim>\<open>CcLazyWriteScan\<close>, \<^verbatim>\<open>CcPostWorkQueue\<close>
  and \<^verbatim>\<open>CcWorkerThread\<close>. The globals of the module are the fields of one state
  record, the locals of a routine with a loop are a record of their own, and each routine
  is a function from state to state. A \<^verbatim>\<open>ULONG\<close> is a 32-bit word, so every sum and
  difference wraps as it does in C.
\<close>

subsection \<open>Machine types and the constants of cc.h\<close>

type_synonym ULONG = "32 word"
type_synonym LONGLONG = "64 word"
type_synonym NTSTATUS = "32 word"

text \<open>An address of a \<^verbatim>\<open>SHARED_CACHE_MAP\<close> (or of a list cursor, which starts with the
  same two members). Pointer comparison in the source is comparison of addresses.\<close>

type_synonym addr = nat

text \<open>
  Modelled from the spec: the header cc.h is not among the sources. The flag masks are
  single, pairwise different bits (spec section 3 lists them as members of a bit set);
  the values are those of the kernel's header, and only their being different bits is
  used below.
\<close>

definition WRITE_QUEUED :: ULONG where "WRITE_QUEUED = 0x0020"
definition MODIFIED_WRITE_DISABLED :: ULONG where "MODIFIED_WRITE_DISABLED = 0x0200"
definition IS_CURSOR :: ULONG where "IS_CURSOR = 0x0800"
definition WAITING_FOR_TEARDOWN :: ULONG where "WAITING_FOR_TEARDOWN = 0x10000"
definition FO_TEMPORARY_FILE :: ULONG where "FO_TEMPORARY_FILE = 0x8000"

text \<open>
  Modelled from the spec: the tunables of cc.h. Spec section 6 gives
  \<^verbatim>\<open>age_target = 8\<close>; \<^verbatim>\<open>MAX_WRITE_BEHIND\<close> is 64 KB and a page is 4 KB, so
  \<^verbatim>\<open>4 * (MAX_WRITE_BEHIND / PAGE_SIZE)\<close> is 64 pages; \<^verbatim>\<open>CC_REQUEUE\<close> is the value the
  write-behind collaborator stores into \<^verbatim>\<open>IoStatus.Information\<close> to ask for a requeue.
\<close>

definition LAZY_WRITER_MAX_AGE_TARGET :: ULONG where "LAZY_WRITER_MAX_AGE_TARGET = 8"
definition MAX_WRITE_BEHIND :: ULONG where "MAX_WRITE_BEHIND = 0x10000"
definition PAGE_SIZE :: ULONG where "PAGE_SIZE = 0x1000"
definition CC_REQUEUE :: "64 word" where "CC_REQUEUE = 35422"
definition STATUS_SUCCESS :: NTSTATUS where "STATUS_SUCCESS = 0"
definition STATUS_INSUFFICIENT_RESOURCES :: NTSTATUS where
  "STATUS_INSUFFICIENT_RESOURCES = 0xC000009A"

text \<open>\<^verbatim>\<open>NT_SUCCESS(Status)\<close> is \<^verbatim>\<open>((NTSTATUS)(Status) >= 0)\<close>, a signed comparison.\<close>

definition NT_SUCCESS :: "NTSTATUS \<Rightarrow> bool" where
  "NT_SUCCESS s = (0 \<le> sint s)"

datatype MM_SYSTEMSIZE = MmSmallSystem | MmMediumSystem | MmLargeSystem

text \<open>The three intervals a scan timer is armed with; each is a global
  \<^verbatim>\<open>LARGE_INTEGER\<close> of the cache manager, named here by its variable.\<close>

datatype delay = CcNoDelay | CcIdleDelay | CcFirstDelay

definition FlagOn :: "ULONG \<Rightarrow> ULONG \<Rightarrow> bool" where
  "FlagOn f m = (f AND m \<noteq> 0)"

definition SetFlag :: "ULONG \<Rightarrow> ULONG \<Rightarrow> ULONG" where
  "SetFlag f m = f OR m"

definition ClearFlag :: "ULONG \<Rightarrow> ULONG \<Rightarrow> ULONG" where
  "ClearFlag f m = f AND NOT m"

subsection \<open>Streams, work entries and the state of the module\<close>

record FILE_OBJECT =
  fo_Flags :: ULONG

record SHARED_CACHE_MAP =
  OpenCount :: ULONG
  FileSize :: LONGLONG
  DirtyPages :: ULONG
  Flags :: ULONG
  LazyWritePassCount :: ULONG
  PagesToWrite :: ULONG
  FileObject :: FILE_OBJECT

text \<open>A \<^verbatim>\<open>WORK_QUEUE_ENTRY\<close>: the \<^verbatim>\<open>Function\<close> tag with the member of the
  \<^verbatim>\<open>Parameters\<close> union that belongs to it. Events, file objects and worker items are
  named by a number.\<close>

datatype WORK_QUEUE_ENTRY =
    ReadAhead nat
  | WriteBehind addr
  | EventSet nat
  | LazyWriteScan

datatype work_queue = CcExpressWorkQueue | CcRegularWorkQueue

record cc_state =
  CcTotalDirtyPages :: ULONG
  CcPagesWrittenLastTime :: ULONG
  CcDirtyPagesLastScan :: ULONG
  CcDirtyPageTarget :: ULONG
  CcPagesYetToWrite :: ULONG
  CcCapturedSystemSize :: MM_SYSTEMSIZE
  ScanActive :: bool
  OtherWork :: bool
  ScanTimer :: "delay option"
  CcDeferredWrites :: "nat list"
  PostDeferredWritesCalls :: nat
  CcPostTickWorkQueue :: "WORK_QUEUE_ENTRY list"
  ExpressQueue :: "WORK_QUEUE_ENTRY list"
  RegularQueue :: "WORK_QUEUE_ENTRY list"
  CcIdleWorkerThreadList :: "nat list"
  CcNumberActiveWorkerThreads :: ULONG
  CcQueueThrottle :: bool
  CriticalWorkQueue :: "nat list"
  DirtyList :: "addr list"
  Scm :: "addr \<Rightarrow> SHARED_CACHE_MAP"
  MasterLockHeld :: bool
  Signalled :: "nat list"
  Allocations :: nat
  Windows :: nat
  WriteBehinds :: nat
  WindowViews :: "(bool \<times> (addr \<Rightarrow> SHARED_CACHE_MAP)) list"

text \<open>
  \<^item> \<open>ScanActive\<close>, \<open>OtherWork\<close> and \<open>ScanTimer\<close> are the members of \<^verbatim>\<open>LazyWriter\<close>;
    the timer is a one-shot kernel timer, so its state is the interval it is armed with,
    if it is armed.
  \<^item> \<open>ExpressQueue\<close> and \<open>RegularQueue\<close> are the lists \<^verbatim>\<open>CcExpressWorkQueue\<close> and
    \<^verbatim>\<open>CcRegularWorkQueue\<close>, head first; \<open>CriticalWorkQueue\<close> holds the worker items
    handed to \<^verbatim>\<open>ExQueueWorkItem\<close>.
  \<^item> \<open>DirtyList\<close> is the circular list \<^verbatim>\<open>CcDirtySharedCacheMapList\<close> in \<^verbatim>\<open>Flink\<close>
    order, the lazy writer's cursor and the list head among its nodes; \<open>Scm\<close> is the
    memory holding the nodes.
  \<^item> \<open>PostDeferredWritesCalls\<close> counts the calls of the collaborator
    \<^verbatim>\<open>CcPostDeferredWrites\<close>; \<open>Allocations\<close> counts the calls of
    \<^verbatim>\<open>CcAllocateWorkQueueEntry\<close>, \<open>Windows\<close> the times the scan loop has let go of the
    master lock and \<open>WriteBehinds\<close> the calls of \<^verbatim>\<open>CcWriteBehind\<close>: they index the
    environment below. \<open>Signalled\<close> lists the events given to \<^verbatim>\<open>KeSetEvent\<close>.
  \<^item> \<open>WindowViews\<close> keeps, window by window, what the other threads find when the scan
    loop has let go of the master lock: whether the lock is held, and the memory of the
    streams. No routine reads it.
\<close>

text \<open>
  The environment of one run: what the collaborators answer and what other threads do
  while the scan does not hold the master lock. \<open>AllocateOk env n\<close> says whether the
  \<open>n\<close>-th call of \<^verbatim>\<open>CcAllocateWorkQueueEntry\<close> returns an entry, \<open>CanIWrite env a\<close> is
  the answer of \<^verbatim>\<open>CcCanIWrite\<close> for the file of stream \<open>a\<close>, and \<open>Arrivals env n\<close> are
  the events of the threads that run the locked section of
  \<^verbatim>\<open>CcWaitForCurrentLazyWriterActivity\<close> in the \<open>n\<close>-th window. \<open>WriteBehindResult env n\<close>
  is what the \<open>n\<close>-th call of \<^verbatim>\<open>CcWriteBehind\<close> does: it returns with an
  \<^verbatim>\<open>IO_STATUS_BLOCK\<close> written, or it raises a status that \<^verbatim>\<open>CcExceptionFilter\<close> lets the
  worker handle. An exception the filter does not accept stops the system and is not part
  of the model; nor is what the write-behind does to the stream itself.
\<close>

datatype write_behind_result = Returned NTSTATUS "64 word" | Raised

record env =
  AllocateOk :: "nat \<Rightarrow> bool"
  CanIWrite :: "addr \<Rightarrow> bool"
  Arrivals :: "nat \<Rightarrow> nat list"
  WriteBehindResult :: "nat \<Rightarrow> write_behind_result"

subsection \<open>The list macros\<close>

text \<open>
  Modelled from the spec: the \<^verbatim>\<open>LIST_ENTRY\<close> macros are not among the sources. A work
  queue is a list head with its entries, first entry first: \<^verbatim>\<open>InsertTailList\<close> appends,
  \<^verbatim>\<open>RemoveHeadList\<close> takes the first entry.
\<close>

definition IsListEmpty :: "'a list \<Rightarrow> bool" where
  "IsListEmpty q = (q = [])"

definition InsertTailList :: "'a list \<Rightarrow> 'a \<Rightarrow> 'a list" where
  "InsertTailList q e = q @ [e]"

text \<open>
  Modelled from the spec: the dirty list is a ring (spec section 3, a circular
  doubly-linked list), a list of different addresses read cyclically. \<open>Flink r x\<close> is the
  node after \<open>x\<close>; \<open>RemoveEntryList\<close> unlinks a node; \<open>InsertTailList_at r h e\<close> is
  \<^verbatim>\<open>InsertTailList(&h->Links, &e->Links)\<close>, which links \<open>e\<close> just before \<open>h\<close>, and
  \<open>InsertHeadList_at r h e\<close> is \<^verbatim>\<open>InsertHeadList(&h->Links, &e->Links)\<close>, which links
  \<open>e\<close> just after \<open>h\<close>.
\<close>

fun index_of :: "'a \<Rightarrow> 'a list \<Rightarrow> nat" where
  "index_of x [] = 0"
| "index_of x (y # ys) = (if x = y then 0 else Suc (index_of x ys))"

definition Flink :: "addr list \<Rightarrow> addr \<Rightarrow> addr" where
  "Flink r x = (if x \<in> set r then r ! ((index_of x r + 1) mod length r) else x)"

definition RemoveEntryList :: "addr list \<Rightarrow> addr \<Rightarrow> addr list" where
  "RemoveEntryList r e = removeAll e r"

fun InsertTailList_at :: "addr list \<Rightarrow> addr \<Rightarrow> addr \<Rightarrow> addr list" where
  "InsertTailList_at [] h e = []"
| "InsertTailList_at (x # xs) h e =
     (if x = h then e # x # xs else x # InsertTailList_at xs h e)"

fun InsertHeadList_at :: "addr list \<Rightarrow> addr \<Rightarrow> addr \<Rightarrow> addr list" where
  "InsertHeadList_at [] h e = []"
| "InsertHeadList_at (x # xs) h e =
     (if x = h then x # e # xs else x # InsertHeadList_at xs h e)"

text \<open>The address of \<^verbatim>\<open>CcLazyWriterCursor\<close>.\<close>

definition CcLazyWriterCursor :: addr where
  "CcLazyWriterCursor = 0"

subsection \<open>CcScheduleLazyWriteScan\<close>

text \<open>
  The routine runs one or two statements, chosen by \<^verbatim>\<open>FastScan\<close> and
  \<^verbatim>\<open>LazyWriter.ScanActive\<close>: it may store \<^verbatim>\<open>TRUE\<close> into \<^verbatim>\<open>LazyWriter.ScanActive\<close>,
  and it calls \<^verbatim>\<open>KeSetTimer\<close>. \<open>schedule_stmts\<close> lists them in the order of the source, so
  that a statement about that order can be made; \<open>CcScheduleLazyWriteScan\<close> runs them.
  \<^verbatim>\<open>KeSetTimer\<close> on a timer that is already armed replaces its due time.
\<close>

datatype schedule_stmt = SetScanActive | KeSetTimer delay

fun exec_stmt :: "cc_state \<Rightarrow> schedule_stmt \<Rightarrow> cc_state" where
  "exec_stmt st SetScanActive = st\<lparr>ScanActive := True\<rparr>"
| "exec_stmt st (KeSetTimer d) = st\<lparr>ScanTimer := Some d\<rparr>"

definition schedule_stmts :: "bool \<Rightarrow> cc_state \<Rightarrow> schedule_stmt list" where
  "schedule_stmts FastScan st =
     (if FastScan then [SetScanActive, KeSetTimer CcNoDelay]
      else if ScanActive st then [KeSetTimer CcIdleDelay]
      else [SetScanActive, KeSetTimer CcFirstDelay])"

definition CcScheduleLazyWriteScan :: "bool \<Rightarrow> cc_state \<Rightarrow> cc_state" where
  "CcScheduleLazyWriteScan FastScan st = foldl exec_stmt st (schedule_stmts FastScan st)"

subsection \<open>CcPostWorkQueue, CcScanDpc and the expiry of the scan timer\<close>

definition CcAcquireMasterLock :: "cc_state \<Rightarrow> cc_state" where
  "CcAcquireMasterLock st = st\<lparr>MasterLockHeld := True\<rparr>"

definition CcReleaseMasterLock :: "cc_state \<Rightarrow> cc_state" where
  "CcReleaseMasterLock st = st\<lparr>MasterLockHeld := False\<rparr>"

text \<open>\<^verbatim>\<open>CcAllocateWorkQueueEntry\<close>: the answer comes from the environment.\<close>

definition CcAllocateWorkQueueEntry :: "env \<Rightarrow> cc_state \<Rightarrow> bool \<times> cc_state" where
  "CcAllocateWorkQueueEntry env st =
     (AllocateOk env (Allocations st), st\<lparr>Allocations := Suc (Allocations st)\<rparr>)"

definition queue_of :: "work_queue \<Rightarrow> cc_state \<Rightarrow> WORK_QUEUE_ENTRY list" where
  "queue_of q st = (case q of CcExpressWorkQueue \<Rightarrow> ExpressQueue st
                            | CcRegularWorkQueue \<Rightarrow> RegularQueue st)"

definition queue_update ::
  "work_queue \<Rightarrow> (WORK_QUEUE_ENTRY list \<Rightarrow> WORK_QUEUE_ENTRY list) \<Rightarrow> cc_state \<Rightarrow> cc_state" where
  "queue_update q f st =
     (case q of CcExpressWorkQueue \<Rightarrow> st\<lparr>ExpressQueue := f (ExpressQueue st)\<rparr>
              | CcRegularWorkQueue \<Rightarrow> st\<lparr>RegularQueue := f (RegularQueue st)\<rparr>)"

definition CcPostWorkQueue :: "WORK_QUEUE_ENTRY \<Rightarrow> work_queue \<Rightarrow> cc_state \<Rightarrow> cc_state" where
  "CcPostWorkQueue WorkQueueEntry WorkQueue st =
     (let st1 = queue_update WorkQueue (\<lambda>q. InsertTailList q WorkQueueEntry) st
      in if \<not> CcQueueThrottle st1 \<and> \<not> IsListEmpty (CcIdleWorkerThreadList st1)
         then st1\<lparr>CcIdleWorkerThreadList := tl (CcIdleWorkerThreadList st1),
                  CcNumberActiveWorkerThreads := CcNumberActiveWorkerThreads st1 + 1,
                  CriticalWorkQueue :=
                    CriticalWorkQueue st1 @ [hd (CcIdleWorkerThreadList st1)]\<rparr>
         else st1)"

definition CcScanDpc :: "env \<Rightarrow> cc_state \<Rightarrow> cc_state" where
  "CcScanDpc env st =
     (let (WorkQueueEntry, st1) = CcAllocateWorkQueueEntry env st
      in if \<not> WorkQueueEntry then st1\<lparr>ScanActive := False\<rparr>
         else CcPostWorkQueue LazyWriteScan CcRegularWorkQueue st1)"


subsection \<open>CcWaitForCurrentLazyWriterActivity\<close>

text \<open>
  \<open>wait_locked\<close> is the section of the routine between \<^verbatim>\<open>CcAcquireMasterLock\<close> and
  \<^verbatim>\<open>CcReleaseMasterLock\<close>. The routine itself returns
  \<^verbatim>\<open>STATUS_INSUFFICIENT_RESOURCES\<close> when it gets no work entry; otherwise it ends in
  \<^verbatim>\<open>KeWaitForSingleObject\<close>, whose result is the kernel's: the model gives no status then.
\<close>

definition wait_locked :: "cc_state \<Rightarrow> nat \<Rightarrow> cc_state" where
  "wait_locked st Event =
     (let st1 = CcAcquireMasterLock st;
          st2 = st1\<lparr>CcPostTickWorkQueue :=
                      InsertTailList (CcPostTickWorkQueue st1) (EventSet Event)\<rparr>;
          st3 = st2\<lparr>OtherWork := True\<rparr>;
          st4 = (if \<not> ScanActive st3 then CcScheduleLazyWriteScan True st3 else st3)
      in CcReleaseMasterLock st4)"

definition CcWaitForCurrentLazyWriterActivity ::
  "env \<Rightarrow> nat \<Rightarrow> cc_state \<Rightarrow> NTSTATUS option \<times> cc_state" where
  "CcWaitForCurrentLazyWriterActivity env Event st =
     (let (WorkQueueEntry, st1) = CcAllocateWorkQueueEntry env st
      in if \<not> WorkQueueEntry then (Some STATUS_INSUFFICIENT_RESOURCES, st1)
         else (None, wait_locked st1 Event))"

text \<open>What the other threads do in one window in which the scan does not hold the
  master lock: the arrivals of that window run the locked section, one after the other.
  What they find when the window opens, the lock and the streams as the scan left them, is
  appended to \<open>WindowViews\<close>.\<close>

definition other_threads :: "env \<Rightarrow> cc_state \<Rightarrow> cc_state" where
  "other_threads env st =
     (foldl wait_locked st (Arrivals env (Windows st)))
       \<lparr>Windows := Suc (Windows st),
        WindowViews := WindowViews st @ [(MasterLockHeld st, Scm st)]\<rparr>"

subsection \<open>CcLazyWriteScan: the budget\<close>

text \<open>The first loop of the scan moves the entries of \<^verbatim>\<open>CcPostTickWorkQueue\<close>, head
  first, to the tail of the local list. The result is the emptied queue and the local
  list.\<close>

fun pull_post_tick ::
  "WORK_QUEUE_ENTRY list \<Rightarrow> WORK_QUEUE_ENTRY list \<Rightarrow> WORK_QUEUE_ENTRY list \<times> WORK_QUEUE_ENTRY list"
  where
  "pull_post_tick [] P = ([], P)"
| "pull_post_tick (Entry # q) P = pull_post_tick q (InsertTailList P Entry)"

definition initial_PagesToWrite :: "cc_state \<Rightarrow> ULONG" where
  "initial_PagesToWrite st =
     (if CcTotalDirtyPages st > LAZY_WRITER_MAX_AGE_TARGET
      then CcTotalDirtyPages st div LAZY_WRITER_MAX_AGE_TARGET
      else CcTotalDirtyPages st)"

definition ForegroundRate :: "cc_state \<Rightarrow> ULONG" where
  "ForegroundRate st =
     (if CcTotalDirtyPages st + CcPagesWrittenLastTime st > CcDirtyPagesLastScan st
      then (CcTotalDirtyPages st + CcPagesWrittenLastTime st) - CcDirtyPagesLastScan st
      else 0)"

definition EstimatedDirtyNextInterval :: "cc_state \<Rightarrow> ULONG" where
  "EstimatedDirtyNextInterval st =
     CcTotalDirtyPages st - initial_PagesToWrite st + ForegroundRate st"

definition final_PagesToWrite :: "cc_state \<Rightarrow> ULONG" where
  "final_PagesToWrite st =
     (if EstimatedDirtyNextInterval st > CcDirtyPageTarget st
      then initial_PagesToWrite st + (EstimatedDirtyNextInterval st - CcDirtyPageTarget st)
      else initial_PagesToWrite st)"

text \<open>Lines 193 to 218: the budget of the tick and the globals it is saved in.\<close>

definition scan_budget :: "cc_state \<Rightarrow> ULONG \<times> cc_state" where
  "scan_budget st =
     (let st1 = st\<lparr>OtherWork := False\<rparr>;
          PagesToWrite = final_PagesToWrite st1
      in (PagesToWrite,
          st1\<lparr>CcDirtyPagesLastScan := CcTotalDirtyPages st1,
              CcPagesWrittenLastTime := PagesToWrite,
              CcPagesYetToWrite := PagesToWrite\<rparr>))"

subsection \<open>CcLazyWriteScan: one turn of the loop\<close>

record scan_locals =
  l_PagesToWrite :: ULONG
  SharedCacheMap :: addr
  FirstVisited :: "addr option"
  LoopsWithLockHeld :: ULONG
  AlreadyMoved :: bool
  MoveBehindCursor :: bool
  PostTickWorkQueue :: "WORK_QUEUE_ENTRY list"

definition update_scm :: "addr \<Rightarrow> (SHARED_CACHE_MAP \<Rightarrow> SHARED_CACHE_MAP) \<Rightarrow> cc_state \<Rightarrow> cc_state"
  where
  "update_scm a f st = st\<lparr>Scm := (Scm st)(a := f (Scm st a))\<rparr>"

text \<open>The last operand of the condition, lines 256: \<^verbatim>\<open>&&\<close> binds tighter than
  \<^verbatim>\<open>||\<close>.\<close>

definition lazy_close_or_empty :: "SHARED_CACHE_MAP \<Rightarrow> bool" where
  "lazy_close_or_empty s = ((OpenCount s = 0 \<and> DirtyPages s = 0) \<or> FileSize s = 0)"

text \<open>
  The condition of lines 245 to 256, evaluated left to right as C does. It returns its
  value and the stream, whose \<^verbatim>\<open>LazyWritePassCount\<close> is incremented when, and only when,
  evaluation reaches \<^verbatim>\<open>++SharedCacheMap->LazyWritePassCount\<close>. \<open>ptw\<close> is the local
  \<^verbatim>\<open>PagesToWrite\<close>, \<open>sz\<close> is \<^verbatim>\<open>CcCapturedSystemSize\<close>.
\<close>

definition scan_condition ::
  "env \<Rightarrow> MM_SYSTEMSIZE \<Rightarrow> ULONG \<Rightarrow> addr \<Rightarrow> SHARED_CACHE_MAP \<Rightarrow> bool \<times> SHARED_CACHE_MAP" where
  "scan_condition env sz ptw a s =
     (if FlagOn (Flags s) (WRITE_QUEUED OR IS_CURSOR) then (False, s)
      else if DirtyPages s \<noteq> 0 then
        (if FlagOn (Flags s) WAITING_FOR_TEARDOWN then (True, s)
         else if ptw \<noteq> 0 then
           (let s1 = s\<lparr>LazyWritePassCount := LazyWritePassCount s + 1\<rparr>
            in if ((LazyWritePassCount s1 AND 0xF) = 0 \<or>
                   \<not> FlagOn (Flags s1) MODIFIED_WRITE_DISABLED \<or>
                   sz = MmSmallSystem \<or>
                   DirtyPages s1 \<ge> 4 * (MAX_WRITE_BEHIND div PAGE_SIZE)) \<and>
                  (\<not> FlagOn (fo_Flags (FileObject s1)) FO_TEMPORARY_FILE \<or>
                   OpenCount s1 = 0 \<or>
                   \<not> CanIWrite env a)
               then (True, s1)
               else (lazy_close_or_empty s1, s1))
         else (lazy_close_or_empty s, s))
      else (lazy_close_or_empty s, s))"

text \<open>Lines 263 to 268.\<close>

definition set_PagesToWrite :: "MM_SYSTEMSIZE \<Rightarrow> SHARED_CACHE_MAP \<Rightarrow> SHARED_CACHE_MAP" where
  "set_PagesToWrite sz s =
     (let s1 = s\<lparr>PagesToWrite := DirtyPages s\<rparr>
      in if FlagOn (Flags s1) MODIFIED_WRITE_DISABLED \<and>
            PagesToWrite s1 \<ge> 4 * (MAX_WRITE_BEHIND div PAGE_SIZE) \<and>
            sz \<noteq> MmSmallSystem
         then s1\<lparr>PagesToWrite := PagesToWrite s1 div 8\<rparr>
         else s1)"

text \<open>Lines 271 to 299: the budget and the cursor.\<close>

definition adjust_targets :: "cc_state \<Rightarrow> scan_locals \<Rightarrow> cc_state \<times> scan_locals" where
  "adjust_targets st l =
     (let a = SharedCacheMap l; s = Scm st a
      in if \<not> AlreadyMoved l then
           (if PagesToWrite s \<ge> l_PagesToWrite l then
              (if FlagOn (Flags s) MODIFIED_WRITE_DISABLED \<or>
                  (FirstVisited l = Some a \<and> (LazyWritePassCount s AND 0xF) = 0)
               then (st, l\<lparr>MoveBehindCursor := True, l_PagesToWrite := 0, AlreadyMoved := True\<rparr>)
               else (st\<lparr>DirtyList :=
                          InsertTailList_at
                            (RemoveEntryList (DirtyList st) CcLazyWriterCursor)
                            a CcLazyWriterCursor\<rparr>,
                     l\<lparr>l_PagesToWrite := 0, AlreadyMoved := True\<rparr>))
            else (st, l\<lparr>l_PagesToWrite := l_PagesToWrite l - PagesToWrite s\<rparr>))
         else (st, l))"

text \<open>Lines 302 to 305: the stream is marked and pinned, then the lock is let go.\<close>

definition scan_pin :: "addr \<Rightarrow> cc_state \<Rightarrow> cc_state" where
  "scan_pin a st =
     CcReleaseMasterLock
       (update_scm a (\<lambda>s. s\<lparr>DirtyPages := DirtyPages s + 1\<rparr>)
         (update_scm a (\<lambda>s. s\<lparr>Flags := SetFlag (Flags s) WRITE_QUEUED\<rparr>) st))"

text \<open>Lines 314 to 316, and again lines 343 to 345: the lock is taken back, the mark and
  the pin are removed.\<close>

definition scan_unpin :: "addr \<Rightarrow> cc_state \<Rightarrow> cc_state" where
  "scan_unpin a st =
     update_scm a (\<lambda>s. s\<lparr>DirtyPages := DirtyPages s - 1\<rparr>)
       (update_scm a (\<lambda>s. s\<lparr>Flags := ClearFlag (Flags s) WRITE_QUEUED\<rparr>)
         (CcAcquireMasterLock st))"

text \<open>Lines 320 to 335.\<close>

definition scan_post :: "addr \<Rightarrow> cc_state \<Rightarrow> scan_locals \<Rightarrow> cc_state \<times> scan_locals" where
  "scan_post a st l =
     (let st1 = update_scm a (\<lambda>s. s\<lparr>DirtyPages := DirtyPages s - 1\<rparr>) (CcAcquireMasterLock st);
          st2 = (if FlagOn (Flags (Scm st1 a)) WAITING_FOR_TEARDOWN
                 then CcPostWorkQueue (WriteBehind a) CcExpressWorkQueue st1
                 else CcPostWorkQueue (WriteBehind a) CcRegularWorkQueue st1)
      in (st2, l\<lparr>LoopsWithLockHeld := 0\<rparr>))"

text \<open>Lines 338 to 346: the \<^verbatim>\<open>else if\<close>, whose condition increments
  \<^verbatim>\<open>LoopsWithLockHeld\<close> first.\<close>

definition scan_courtesy :: "env \<Rightarrow> cc_state \<Rightarrow> scan_locals \<Rightarrow> cc_state \<times> scan_locals" where
  "scan_courtesy env st l =
     (let a = SharedCacheMap l;
          l1 = l\<lparr>LoopsWithLockHeld := LoopsWithLockHeld l + 1\<rparr>
      in if LoopsWithLockHeld l1 \<ge> 20 \<and> \<not> FlagOn (Flags (Scm st a)) (WRITE_QUEUED OR IS_CURSOR)
         then (scan_unpin a (other_threads env (scan_pin a st)),
               l1\<lparr>LoopsWithLockHeld := 0\<rparr>)
         else (st, l1))"

text \<open>Lines 352 to 359: the next node is read before the cursor is moved behind this
  one.\<close>

definition scan_advance :: "cc_state \<Rightarrow> scan_locals \<Rightarrow> cc_state \<times> scan_locals" where
  "scan_advance st l =
     (let a = SharedCacheMap l;
          NextSharedCacheMap = Flink (DirtyList st) a
      in if MoveBehindCursor l
         then (st\<lparr>DirtyList :=
                    InsertHeadList_at
                      (RemoveEntryList (DirtyList st) CcLazyWriterCursor)
                      a CcLazyWriterCursor\<rparr>,
               l\<lparr>MoveBehindCursor := False, SharedCacheMap := NextSharedCacheMap\<rparr>)
         else (st, l\<lparr>SharedCacheMap := NextSharedCacheMap\<rparr>))"

text \<open>
  The body of the \<^verbatim>\<open>while\<close> of line 228. The first component of the result says
  whether the loop was left by the \<^verbatim>\<open>break\<close> of line 317.
\<close>

definition scan_body :: "env \<Rightarrow> cc_state \<Rightarrow> scan_locals \<Rightarrow> bool \<times> cc_state \<times> scan_locals" where
  "scan_body env st l =
     (let a = SharedCacheMap l;
          l1 = (if FirstVisited l = None then l\<lparr>FirstVisited := Some a\<rparr> else l);
          (eligible, s1) =
             scan_condition env (CcCapturedSystemSize st) (l_PagesToWrite l1) a (Scm st a);
          st1 = update_scm a (\<lambda>_. s1) st
      in if eligible then
           (let st2 = update_scm a (set_PagesToWrite (CcCapturedSystemSize st1)) st1;
                (st3, l3) = adjust_targets st2 l1;
                (WorkQueueEntry, st4) = CcAllocateWorkQueueEntry env (scan_pin a st3);
                st5 = other_threads env st4
            in if \<not> WorkQueueEntry then (True, scan_unpin a st5, l3)
               else (let (st6, l6) = scan_post a st5 l3;
                         (st7, l7) = scan_advance st6 l6
                     in (False, st7, l7)))
         else (let (st2, l2) = scan_courtesy env st1 l1;
                   (st3, l3) = scan_advance st2 l2
               in (False, st3, l3)))"

definition scan_continues :: "scan_locals \<Rightarrow> bool" where
  "scan_continues l =
     (Some (SharedCacheMap l) \<noteq> FirstVisited l \<and> SharedCacheMap l \<noteq> CcLazyWriterCursor)"

partial_function (option) scan_loop ::
  "env \<Rightarrow> cc_state \<Rightarrow> scan_locals \<Rightarrow> (cc_state \<times> scan_locals) option" where
  "scan_loop env st l =
     (if scan_continues l
      then (case scan_body env st l of
              (left, st', l') \<Rightarrow> if left then Some (st', l') else scan_loop env st' l')
      else Some (st, l))"

subsection \<open>CcLazyWriteScan\<close>

text \<open>Lines 365 to 368: the local list is emptied into the regular queue.\<close>

fun queue_post_tick :: "WORK_QUEUE_ENTRY list \<Rightarrow> cc_state \<Rightarrow> cc_state" where
  "queue_post_tick [] st = st"
| "queue_post_tick (Entry # P) st = queue_post_tick P (CcPostWorkQueue Entry CcRegularWorkQueue st)"

definition CcPostDeferredWrites :: "cc_state \<Rightarrow> cc_state" where
  "CcPostDeferredWrites st = st\<lparr>PostDeferredWritesCalls := Suc (PostDeferredWritesCalls st)\<rparr>"

text \<open>Lines 365 to 380: what the scan does after its loop.\<close>

definition scan_finish :: "cc_state \<Rightarrow> scan_locals \<Rightarrow> cc_state" where
  "scan_finish st l =
     (let st1 = CcReleaseMasterLock (queue_post_tick (PostTickWorkQueue l) st);
          st2 = (if \<not> IsListEmpty (CcDeferredWrites st1) then CcPostDeferredWrites st1 else st1)
      in CcScheduleLazyWriteScan False st2)"

text \<open>Lines 186 to 221: the scan up to its loop, with the locals the loop starts from.\<close>

definition scan_start :: "cc_state \<Rightarrow> cc_state \<times> scan_locals" where
  "scan_start st =
     (let (q, P) = pull_post_tick (CcPostTickWorkQueue st) [];
          (PagesToWrite, st1) = scan_budget (st\<lparr>CcPostTickWorkQueue := q\<rparr>)
      in (st1, \<lparr>l_PagesToWrite = PagesToWrite,
                SharedCacheMap = Flink (DirtyList st1) CcLazyWriterCursor,
                FirstVisited = None,
                LoopsWithLockHeld = 0,
                AlreadyMoved = False,
                MoveBehindCursor = False,
                PostTickWorkQueue = P\<rparr>))"

text \<open>
  The routine. \<open>None\<close> is a scan whose loop does not end. The checked-build block of
  lines 145 to 167 only asserts and is left out; an exception inside the scan ends in
  \<^verbatim>\<open>CcBugCheck\<close> and is not part of the model.
\<close>

definition CcLazyWriteScan :: "env \<Rightarrow> cc_state \<Rightarrow> cc_state option" where
  "CcLazyWriteScan env st =
     (let st0 = CcAcquireMasterLock st
      in if CcTotalDirtyPages st0 = 0 \<and> \<not> OtherWork st0 then
           (if IsListEmpty (CcDeferredWrites st0)
            then Some (CcReleaseMasterLock (st0\<lparr>ScanActive := False\<rparr>))
            else Some (CcScheduleLazyWriteScan False
                         (CcPostDeferredWrites (CcReleaseMasterLock st0))))
         else (case scan_start st0 of
                 (st1, l1) \<Rightarrow>
                   (case scan_loop env st1 l1 of
                      None \<Rightarrow> None
                    | Some (st2, l2) \<Rightarrow> Some (scan_finish st2 l2))))"

subsection \<open>CcWorkerThread\<close>

text \<open>The locals of the routine, with the \<^verbatim>\<open>MemoryMaker\<close> bit of the thread. A pointer
  that has not been assigned yet is \<open>None\<close>.\<close>

record worker_locals =
  WorkQueue :: "work_queue option"
  WorkQueueEntry :: "WORK_QUEUE_ENTRY option"
  RescanOk :: bool
  DropThrottle :: bool
  IoStatus_Status :: NTSTATUS
  IoStatus_Information :: "64 word"
  MemoryMaker :: bool

definition worker_start :: worker_locals where
  "worker_start =
     \<lparr>WorkQueue = None, WorkQueueEntry = None, RescanOk = False, DropThrottle = False,
      IoStatus_Status = STATUS_SUCCESS, IoStatus_Information = 0, MemoryMaker = False\<rparr>"

definition is_EventSet :: "WORK_QUEUE_ENTRY \<Rightarrow> bool" where
  "is_EventSet e = (case e of EventSet _ \<Rightarrow> True | _ \<Rightarrow> False)"

text \<open>Lines 495 to 504, with \<^verbatim>\<open>WorkQueue\<close> chosen: the head entry is looked at, and
  either the worker throttles and leaves the loop, or it takes the entry off the queue.\<close>

definition worker_take ::
  "work_queue \<Rightarrow> cc_state \<Rightarrow> worker_locals \<Rightarrow> bool \<times> cc_state \<times> worker_locals" where
  "worker_take q st w =
     (let e = hd (queue_of q st);
          w1 = w\<lparr>WorkQueue := Some q, WorkQueueEntry := Some e\<rparr>
      in if is_EventSet e \<and> CcNumberActiveWorkerThreads st > 1
         then (True, st\<lparr>CcQueueThrottle := True\<rparr>, w1)
         else (False, queue_update q tl st, w1))"

text \<open>Lines 476 to 484: the throttle is dropped after an event, and an entry whose
  write-behind asked for it is put back at the tail of the queue it came from.\<close>

definition worker_prepare :: "cc_state \<Rightarrow> worker_locals \<Rightarrow> cc_state \<times> worker_locals" where
  "worker_prepare st w =
     (let (st1, w1) = (if DropThrottle w
                       then (st\<lparr>CcQueueThrottle := False\<rparr>, w\<lparr>DropThrottle := False\<rparr>)
                       else (st, w))
      in if IoStatus_Information w1 = CC_REQUEUE
         then ((case (WorkQueue w1, WorkQueueEntry w1) of
                  (Some q, Some e) \<Rightarrow> queue_update q (\<lambda>l. InsertTailList l e) st1
                | _ \<Rightarrow> st1),
               w1\<lparr>IoStatus_Information := 0\<rparr>)
         else (st1, w1))"

text \<open>
  Lines 473 to 506, the part of one turn that runs under the work queue lock. The first
  component of the result says whether the loop was left by \<^verbatim>\<open>break\<close>.
\<close>

definition worker_select :: "cc_state \<Rightarrow> worker_locals \<Rightarrow> bool \<times> cc_state \<times> worker_locals" where
  "worker_select st w =
     (let (st2, w2) = worker_prepare st w
      in if \<not> IsListEmpty (ExpressQueue st2) then worker_take CcExpressWorkQueue st2 w2
         else if \<not> IsListEmpty (RegularQueue st2) then worker_take CcRegularWorkQueue st2 w2
         else (True, st2, w2))"

text \<open>
  Lines 509 to 548: the entry is carried out. \<^verbatim>\<open>CcPerformReadAhead\<close> is a collaborator
  of which nothing is modelled; the entry is a value, so freeing it changes nothing.
\<close>

definition worker_dispatch ::
  "env \<Rightarrow> cc_state \<Rightarrow> worker_locals \<Rightarrow> (cc_state \<times> worker_locals) option" where
  "worker_dispatch env st w =
     (case WorkQueueEntry w of
        None \<Rightarrow> Some (st, w)
      | Some (ReadAhead f) \<Rightarrow> Some (st, w)
      | Some (WriteBehind a) \<Rightarrow>
          (case WriteBehindResult env (WriteBehinds st) of
             Returned status information \<Rightarrow>
               Some (st\<lparr>WriteBehinds := Suc (WriteBehinds st)\<rparr>,
                     w\<lparr>IoStatus_Status := status, IoStatus_Information := information,
                       RescanOk := NT_SUCCESS status, MemoryMaker := False\<rparr>)
           | Raised \<Rightarrow>
               Some (st\<lparr>WriteBehinds := Suc (WriteBehinds st)\<rparr>, w\<lparr>MemoryMaker := False\<rparr>))
      | Some (EventSet ev) \<Rightarrow>
          Some (st\<lparr>Signalled := Signalled st @ [ev]\<rparr>, w\<lparr>DropThrottle := True\<rparr>)
      | Some LazyWriteScan \<Rightarrow>
          (case CcLazyWriteScan env st of
             None \<Rightarrow> None
           | Some st' \<Rightarrow> Some (st', w)))"

partial_function (option) worker_loop ::
  "env \<Rightarrow> cc_state \<Rightarrow> worker_locals \<Rightarrow> (cc_state \<times> worker_locals) option" where
  "worker_loop env st w =
     (case worker_select st w of
        (left, st1, w1) \<Rightarrow>
          if left then Some (st1, w1)
          else (case worker_dispatch env st1 w1 of
                  None \<Rightarrow> None
                | Some (st2, w2) \<Rightarrow> worker_loop env st2 w2))"

text \<open>Lines 552 to 554: the worker goes back to the idle list.\<close>

definition worker_idle :: "nat \<Rightarrow> cc_state \<Rightarrow> cc_state" where
  "worker_idle ExWorkQueueItem st =
     st\<lparr>CcIdleWorkerThreadList := InsertTailList (CcIdleWorkerThreadList st) ExWorkQueueItem,
        CcNumberActiveWorkerThreads := CcNumberActiveWorkerThreads st - 1\<rparr>"

text \<open>The condition of line 556.\<close>

definition worker_rescans :: "cc_state \<Rightarrow> worker_locals \<Rightarrow> bool" where
  "worker_rescans st w =
     (\<not> IsListEmpty (CcDeferredWrites st) \<and> CcTotalDirtyPages st \<ge> 20 \<and> RescanOk w)"

definition CcWorkerThread :: "env \<Rightarrow> nat \<Rightarrow> cc_state \<Rightarrow> cc_state option" where
  "CcWorkerThread env ExWorkQueueItem st =
     (case worker_loop env st worker_start of
        None \<Rightarrow> None
      | Some (st1, w1) \<Rightarrow>
          (let st2 = worker_idle ExWorkQueueItem st1
           in if worker_rescans st2 w1 then CcLazyWriteScan env st2 else Some st2))"

subsection \<open>The budget as the specification words it\<close>

text \<open>
  The specification gives the budget over the integers: the dirty total, divided by the
  age target only when it exceeds it; the foreground rate as a maximum with 0; the excess
  over the target added. \<open>T\<close>, \<open>W\<close> and \<open>L\<close> are the values of \<^verbatim>\<open>CcTotalDirtyPages\<close>,
  \<^verbatim>\<open>CcPagesWrittenLastTime\<close> and \<^verbatim>\<open>CcDirtyPagesLastScan\<close>.
\<close>

definition spec_initial :: "int \<Rightarrow> int" where
  "spec_initial T = (if T > 8 then T div 8 else T)"

definition spec_rate :: "int \<Rightarrow> int \<Rightarrow> int \<Rightarrow> int" where
  "spec_rate T W L = max 0 (T + W - L)"

definition spec_PagesToWrite :: "int \<Rightarrow> int \<Rightarrow> int \<Rightarrow> int \<Rightarrow> int" where
  "spec_PagesToWrite T W L target =
     (let P = spec_initial T;
          E = T - P + spec_rate T W L
      in if E > target then P + (E - target) else P)"

subsection \<open>A state to run the routines on\<close>

text \<open>
  Scenario A of the specification: one stream with 100 dirty pages, not a metadata stream
  and not a temporary file, a dirty total of 100 and a target of 1000. The ring holds the
  cursor, the stream at address 2 and the list head at address 3.
\<close>

definition cursor_node :: SHARED_CACHE_MAP where
  "cursor_node =
     \<lparr>OpenCount = 0, FileSize = 0, DirtyPages = 0, Flags = IS_CURSOR,
      LazyWritePassCount = 0, PagesToWrite = 0, FileObject = \<lparr>fo_Flags = 0\<rparr>\<rparr>"

definition stream_A :: SHARED_CACHE_MAP where
  "stream_A =
     \<lparr>OpenCount = 1, FileSize = 409600, DirtyPages = 100, Flags = 0,
      LazyWritePassCount = 0, PagesToWrite = 0, FileObject = \<lparr>fo_Flags = 0\<rparr>\<rparr>"

definition scenario_A :: cc_state where
  "scenario_A =
     \<lparr>CcTotalDirtyPages = 100, CcPagesWrittenLastTime = 0, CcDirtyPagesLastScan = 100,
      CcDirtyPageTarget = 1000, CcPagesYetToWrite = 0, CcCapturedSystemSize = MmLargeSystem,
      ScanActive = True, OtherWork = False, ScanTimer = None, CcDeferredWrites = [],
      PostDeferredWritesCalls = 0, CcPostTickWorkQueue = [], ExpressQueue = [],
      RegularQueue = [], CcIdleWorkerThreadList = [], CcNumberActiveWorkerThreads = 1,
      CcQueueThrottle = False, CriticalWorkQueue = [],
      DirtyList = [CcLazyWriterCursor, 2, 3],
      Scm = (\<lambda>_. cursor_node)(2 := stream_A),
      MasterLockHeld = False, Signalled = [], Allocations = 0, Windows = 0, WriteBehinds = 0,
      WindowViews = []\<rparr>"

definition quiet_env :: env where
  "quiet_env =
     \<lparr>AllocateOk = (\<lambda>_. True), CanIWrite = (\<lambda>_. True), Arrivals = (\<lambda>_. []),
      WriteBehindResult = (\<lambda>_. Returned STATUS_SUCCESS 0)\<rparr>"

subsection \<open>The dispatch condition as the specification words it\<close>

text \<open>
  A stream is to be dispatched when it has neither \<^verbatim>\<open>WRITE_QUEUED\<close> nor \<^verbatim>\<open>IS_CURSOR\<close>
  and (1) it has dirty pages and either waits for teardown or there is budget left and
  the pass gate and the temporary-file gate hold, or (2) it has no opener and no dirty
  page, or (3) its size is 0. \<open>ptw\<close> is the budget left, the pass gate reads the
  incremented pass count.
\<close>

definition dispatch_condition ::
  "env \<Rightarrow> MM_SYSTEMSIZE \<Rightarrow> ULONG \<Rightarrow> addr \<Rightarrow> SHARED_CACHE_MAP \<Rightarrow> bool" where
  "dispatch_condition env sz ptw a s =
     (\<not> FlagOn (Flags s) WRITE_QUEUED \<and> \<not> FlagOn (Flags s) IS_CURSOR \<and>
      ((DirtyPages s \<noteq> 0 \<and>
        (FlagOn (Flags s) WAITING_FOR_TEARDOWN \<or>
         (ptw \<noteq> 0 \<and>
          (((LazyWritePassCount s + 1) AND 0xF) = 0 \<or>
           \<not> FlagOn (Flags s) MODIFIED_WRITE_DISABLED \<or>
           sz = MmSmallSystem \<or>
           DirtyPages s \<ge> 4 * (MAX_WRITE_BEHIND div PAGE_SIZE)) \<and>
          (\<not> FlagOn (fo_Flags (FileObject s)) FO_TEMPORARY_FILE \<or>
           OpenCount s = 0 \<or>
           \<not> CanIWrite env a)))) \<or>
       (OpenCount s = 0 \<and> DirtyPages s = 0) \<or>
       FileSize s = 0))"

text \<open>
  Scenario B: a metadata stream (\<^verbatim>\<open>MODIFIED_WRITE_DISABLED\<close>) with 4096 dirty pages, and a
  target of 5000, so that the budget of the tick is \<open>4096 / 8 = 512\<close>; the master lock is
  held, as it is inside the scan. \<open>failing_env\<close> is an environment in which no work entry
  can be allocated.
\<close>

definition stream_B :: SHARED_CACHE_MAP where
  "stream_B =
     \<lparr>OpenCount = 1, FileSize = 16777216, DirtyPages = 4096, Flags = MODIFIED_WRITE_DISABLED,
      LazyWritePassCount = 0, PagesToWrite = 0, FileObject = \<lparr>fo_Flags = 0\<rparr>\<rparr>"

definition scenario_B :: cc_state where
  "scenario_B =
     scenario_A\<lparr>CcTotalDirtyPages := 4096, CcDirtyPagesLastScan := 4096,
                CcDirtyPageTarget := 5000, Scm := (\<lambda>_. cursor_node)(2 := stream_B),
                MasterLockHeld := True\<rparr>"

definition failing_env :: env where
  "failing_env = quiet_env\<lparr>AllocateOk := (\<lambda>_. False)\<rparr>"

definition scenario_A_locked :: cc_state where
  "scenario_A_locked = CcAcquireMasterLock scenario_A"

subsection \<open>The run of a worker as the specification words it\<close>

text \<open>
  The calls of \<^verbatim>\<open>CcWriteBehind\<close> that a worker makes during its run are the calls number
  \<open>n0\<close> up to \<open>n1 - 1\<close>, where \<open>n0\<close> and \<open>n1\<close> are the values of \<open>WriteBehinds\<close> when the run
  starts and when its loop ends. \<open>returned_statuses\<close> are the statuses of those that
  returned. The claim speaks of a run that "completed at least one successful
  WriteBehind"; the amended claim of a run whose most recent completed one succeeded.
\<close>

definition returned_statuses :: "env \<Rightarrow> nat \<Rightarrow> nat \<Rightarrow> NTSTATUS list" where
  "returned_statuses env n0 n1 =
     concat (map (\<lambda>n. case WriteBehindResult env n of Returned s i \<Rightarrow> [s] | Raised \<Rightarrow> [])
                 [n0..<n1])"

definition some_write_succeeded :: "env \<Rightarrow> nat \<Rightarrow> nat \<Rightarrow> bool" where
  "some_write_succeeded env n0 n1 = (\<exists>s \<in> set (returned_statuses env n0 n1). NT_SUCCESS s)"

definition last_write_succeeded :: "env \<Rightarrow> nat \<Rightarrow> nat \<Rightarrow> bool" where
  "last_write_succeeded env n0 n1 =
     (returned_statuses env n0 n1 \<noteq> [] \<and> NT_SUCCESS (last (returned_statuses env n0 n1)))"

text \<open>
  A worker's run: two write-behind entries on the regular queue, a deferred write
  waiting, 100 dirty pages. In \<open>mixed_env\<close> the first write-behind succeeds and the second
  returns \<^verbatim>\<open>STATUS_UNSUCCESSFUL\<close>. \<open>scenario_E\<close> has an event entry at the head of the
  regular queue and two active workers; \<open>scenario_E_single\<close> is the same state with
  one active worker.
\<close>

definition scenario_W :: cc_state where
  "scenario_W =
     scenario_A\<lparr>RegularQueue := [WriteBehind 2, WriteBehind 3], CcDeferredWrites := [7]\<rparr>"

definition mixed_env :: env where
  "mixed_env =
     quiet_env\<lparr>WriteBehindResult :=
                 (\<lambda>n. if n = 0 then Returned STATUS_SUCCESS 0 else Returned 0xC0000001 0)\<rparr>"

definition scenario_W_drained :: cc_state where
  "scenario_W_drained = scenario_W\<lparr>RegularQueue := [], WriteBehinds := 2\<rparr>"



subsection \<open>The dirty list as a ring, and what a tick keeps true\<close>

text \<open>
  The dirty list is well formed for the streams \<open>nodes\<close> when no address occurs twice in
  it, the cursor of the lazy writer is on it, and the other addresses, read in list order, are
  \<open>nodes\<close>. The cursor moves through the list during a scan; the streams keep
  their order.
\<close>

definition ring_ok :: "addr list \<Rightarrow> addr list \<Rightarrow> bool" where
  "ring_ok nodes r =
     (distinct r \<and> CcLazyWriterCursor \<in> set r \<and>
      filter (\<lambda>x. x \<noteq> CcLazyWriterCursor) r = nodes)"

text \<open>
  What holds at the top of every turn of the loop of a tick that started with the regular
  queue \<open>R0\<close>, the drained entries \<open>P\<close> and \<open>W0\<close> windows
  behind it: the master lock is held, the local list is still \<open>P\<close>, the regular
  queue has grown by write-behind entries only, and the post-tick queue holds exactly what the
  other threads queued in the windows of this tick.
\<close>

definition tick_inv ::
  "WORK_QUEUE_ENTRY list \<Rightarrow> WORK_QUEUE_ENTRY list \<Rightarrow> nat \<Rightarrow> env \<Rightarrow> cc_state \<Rightarrow> scan_locals \<Rightarrow> bool"
  where
  "tick_inv R0 P W0 env st l =
     (MasterLockHeld st \<and> PostTickWorkQueue l = P \<and>
      (\<exists>ys. RegularQueue st = R0 @ ys \<and> (\<forall>e \<in> set ys. \<exists>a. e = WriteBehind a)) \<and>
      W0 \<le> Windows st \<and>
      CcPostTickWorkQueue st = map EventSet (concat (map (Arrivals env) [W0..<Windows st])))"

subsection \<open>A tick with an entry waiting on the post-tick queue\<close>

text \<open>
  The state \<open>scenario_A\<close> with one event entry on the post-tick queue, and an
  environment in which another thread queues one more event in the first window of the tick.
  \<open>stream_A_queued\<close> is the stream once its write is queued;
  \<open>scenario_P_loop1\<close> is the state when the loop is left and
  \<open>scenario_P_after\<close> the state when the tick returns.
\<close>

definition scenario_P :: cc_state where
  "scenario_P = scenario_A\<lparr>CcPostTickWorkQueue := [EventSet 4], OtherWork := True\<rparr>"

definition arrival_env :: env where
  "arrival_env = quiet_env\<lparr>Arrivals := (\<lambda>n. if n = 0 then [8] else [])\<rparr>"

definition stream_A_queued :: SHARED_CACHE_MAP where
  "stream_A_queued =
     stream_A\<lparr>LazyWritePassCount := 1, PagesToWrite := 100, Flags := WRITE_QUEUED\<rparr>"

definition stream_A_pinned :: SHARED_CACHE_MAP where
  "stream_A_pinned = stream_A_queued\<lparr>DirtyPages := 101\<rparr>"

definition scenario_P_loop1 :: cc_state where
  "scenario_P_loop1 =
     scenario_A\<lparr>CcPagesWrittenLastTime := 12, CcPagesYetToWrite := 12, MasterLockHeld := True,
                OtherWork := True, CcPostTickWorkQueue := [EventSet 8],
                RegularQueue := [WriteBehind 2],
                Scm := (\<lambda>_. cursor_node)(2 := stream_A_queued),
                Allocations := 1, Windows := 1,
                WindowViews := [(False, (\<lambda>_. cursor_node)(2 := stream_A_pinned))]\<rparr>"

definition scenario_P_after :: cc_state where
  "scenario_P_after =
     scenario_P_loop1\<lparr>RegularQueue := [WriteBehind 2, EventSet 4], MasterLockHeld := False,
                      ScanTimer := Some CcIdleDelay\<rparr>"

section \<open>Properties\<close>

subsection \<open>The scheduler\<close>




lemma ScanTimer_CcPostWorkQueue [simp]: "ScanTimer (CcPostWorkQueue e q st) = ScanTimer st"
  by (simp add: CcPostWorkQueue_def queue_update_def Let_def split: work_queue.splits)

lemma ScanTimer_CcScanDpc [simp]: "ScanTimer (CcScanDpc env st) = ScanTimer st"
  by (simp add: CcScanDpc_def CcAllocateWorkQueueEntry_def)

lemma RegularQueue_CcPostWorkQueue [simp]:
  "RegularQueue (CcPostWorkQueue e q st) =
     (if q = CcRegularWorkQueue then RegularQueue st @ [e] else RegularQueue st)"
  by (simp add: CcPostWorkQueue_def queue_update_def Let_def InsertTailList_def split: work_queue.splits)




subsection \<open>The budget of a tick\<close>

lemma uint_initial: "uint (initial_PagesToWrite st) = spec_initial (uint (CcTotalDirtyPages st))"
  by (simp add: initial_PagesToWrite_def spec_initial_def LAZY_WRITER_MAX_AGE_TARGET_def
      word_less_def uint_div)

lemma initial_le: "initial_PagesToWrite st \<le> CcTotalDirtyPages st"
proof -
  have "uint (CcTotalDirtyPages st) div 8 \<le> uint (CcTotalDirtyPages st)"
    using uint_ge_0 [of "CcTotalDirtyPages st"] by linarith
  then show ?thesis
    by (simp add: initial_PagesToWrite_def LAZY_WRITER_MAX_AGE_TARGET_def word_le_def uint_div)
qed

lemma uint_sub_initial:
  "uint (CcTotalDirtyPages st - initial_PagesToWrite st) =
     uint (CcTotalDirtyPages st) - uint (initial_PagesToWrite st)"
  using initial_le [of st] by (simp add: word_le_def uint_sub_lem [THEN iffD1])

lemma uint_rate:
  assumes "uint (CcTotalDirtyPages st) + uint (CcPagesWrittenLastTime st) < 2 ^ 32"
  shows "uint (ForegroundRate st) =
     spec_rate (uint (CcTotalDirtyPages st)) (uint (CcPagesWrittenLastTime st))
       (uint (CcDirtyPagesLastScan st))"
proof -
  have s: "uint (CcTotalDirtyPages st + CcPagesWrittenLastTime st) =
      uint (CcTotalDirtyPages st) + uint (CcPagesWrittenLastTime st)"
    using assms by (simp add: uint_add_lem [THEN iffD1])
  show ?thesis
  proof (cases "CcTotalDirtyPages st + CcPagesWrittenLastTime st > CcDirtyPagesLastScan st")
    case True
    then have "uint (CcTotalDirtyPages st + CcPagesWrittenLastTime st - CcDirtyPagesLastScan st) =
       uint (CcTotalDirtyPages st + CcPagesWrittenLastTime st) - uint (CcDirtyPagesLastScan st)"
      by (simp add: word_less_def uint_sub_lem [THEN iffD1])
    with True s show ?thesis
      by (simp add: ForegroundRate_def spec_rate_def word_less_def)
  next
    case False
    with s show ?thesis
      by (simp add: ForegroundRate_def spec_rate_def word_less_def)
  qed
qed


lemma pull_post_tick_eq: "pull_post_tick q P = ([], P @ q)"
  by (induction q arbitrary: P) (simp_all add: InsertTailList_def)

lemma scan_start_eq:
  "scan_start st =
     (st\<lparr>CcPostTickWorkQueue := [], OtherWork := False,
         CcDirtyPagesLastScan := CcTotalDirtyPages st,
         CcPagesWrittenLastTime := final_PagesToWrite st,
         CcPagesYetToWrite := final_PagesToWrite st\<rparr>,
      \<lparr>l_PagesToWrite = final_PagesToWrite st,
       SharedCacheMap = Flink (DirtyList st) CcLazyWriterCursor,
       FirstVisited = None, LoopsWithLockHeld = 0, AlreadyMoved = False,
       MoveBehindCursor = False, PostTickWorkQueue = CcPostTickWorkQueue st\<rparr>)"
  by (simp add: scan_start_def scan_budget_def pull_post_tick_eq Let_def
      final_PagesToWrite_def EstimatedDirtyNextInterval_def initial_PagesToWrite_def
      ForegroundRate_def)

lemma uint_final:
  assumes h1: "uint (CcTotalDirtyPages st) + uint (CcPagesWrittenLastTime st) < 2 ^ 32"
    and h2: "uint (CcTotalDirtyPages st) - spec_initial (uint (CcTotalDirtyPages st)) +
             spec_rate (uint (CcTotalDirtyPages st)) (uint (CcPagesWrittenLastTime st))
               (uint (CcDirtyPagesLastScan st)) < 2 ^ 32"
    and h3: "spec_PagesToWrite (uint (CcTotalDirtyPages st)) (uint (CcPagesWrittenLastTime st))
               (uint (CcDirtyPagesLastScan st)) (uint (CcDirtyPageTarget st)) < 2 ^ 32"
  shows "uint (final_PagesToWrite st) =
     spec_PagesToWrite (uint (CcTotalDirtyPages st)) (uint (CcPagesWrittenLastTime st))
       (uint (CcDirtyPagesLastScan st)) (uint (CcDirtyPageTarget st))"
proof -
  let ?T = "uint (CcTotalDirtyPages st)"
  let ?P = "spec_initial ?T"
  let ?R = "spec_rate ?T (uint (CcPagesWrittenLastTime st)) (uint (CcDirtyPagesLastScan st))"
  have r: "uint (ForegroundRate st) = ?R" using h1 by (rule uint_rate)
  have e: "uint (EstimatedDirtyNextInterval st) = ?T - ?P + ?R"
    unfolding EstimatedDirtyNextInterval_def
    using h2 by (simp add: uint_add_lem [THEN iffD1] uint_sub_initial r uint_initial)
  show ?thesis
  proof (cases "EstimatedDirtyNextInterval st > CcDirtyPageTarget st")
    case True
    then have gt: "?T - ?P + ?R > uint (CcDirtyPageTarget st)"
      by (simp add: word_less_def e)
    have d: "uint (EstimatedDirtyNextInterval st - CcDirtyPageTarget st) =
        ?T - ?P + ?R - uint (CcDirtyPageTarget st)"
      using True by (simp add: word_less_def uint_sub_lem [THEN iffD1] e)
    have "uint (initial_PagesToWrite st + (EstimatedDirtyNextInterval st - CcDirtyPageTarget st)) =
        ?P + (?T - ?P + ?R - uint (CcDirtyPageTarget st))"
      using h3 gt by (simp add: uint_add_lem [THEN iffD1] d uint_initial spec_PagesToWrite_def Let_def)
    with True gt show ?thesis
      by (simp add: final_PagesToWrite_def spec_PagesToWrite_def Let_def)
  next
    case False
    then have "\<not> ?T - ?P + ?R > uint (CcDirtyPageTarget st)"
      by (simp add: word_less_def e)
    with False show ?thesis
      by (simp add: final_PagesToWrite_def spec_PagesToWrite_def Let_def uint_initial)
  qed
qed

text \<open>
  Claim C2, amended. After the quiescence test the scan runs \<open>scan_start\<close>. As long as no
  \<^verbatim>\<open>ULONG\<close> sum overflows (the dirty total plus the pages written last time, the
  estimate, and the bumped budget all stay below \<open>2 ^ 32\<close>), the budget is the one the
  specification words: the dirty total, divided by 8 only above 8; the rate
  \<open>max 0 (T + W - L)\<close>; the excess of the estimate over the target added. The scan then
  stores the dirty total into \<^verbatim>\<open>CcDirtyPagesLastScan\<close>, the budget into
  \<^verbatim>\<open>CcPagesYetToWrite\<close> and \<^verbatim>\<open>CcPagesWrittenLastTime\<close>, and clears \<^verbatim>\<open>OtherWork\<close>.
\<close>

theorem budget_without_overflow:
  assumes "uint (CcTotalDirtyPages st) + uint (CcPagesWrittenLastTime st) < 2 ^ 32"
    and "uint (CcTotalDirtyPages st) - spec_initial (uint (CcTotalDirtyPages st)) +
         spec_rate (uint (CcTotalDirtyPages st)) (uint (CcPagesWrittenLastTime st))
           (uint (CcDirtyPagesLastScan st)) < 2 ^ 32"
    and "spec_PagesToWrite (uint (CcTotalDirtyPages st)) (uint (CcPagesWrittenLastTime st))
           (uint (CcDirtyPagesLastScan st)) (uint (CcDirtyPageTarget st)) < 2 ^ 32"
  shows "uint (initial_PagesToWrite st) = spec_initial (uint (CcTotalDirtyPages st)) \<and>
     uint (ForegroundRate st) =
       spec_rate (uint (CcTotalDirtyPages st)) (uint (CcPagesWrittenLastTime st))
         (uint (CcDirtyPagesLastScan st)) \<and>
     uint (l_PagesToWrite (snd (scan_start st))) =
       spec_PagesToWrite (uint (CcTotalDirtyPages st)) (uint (CcPagesWrittenLastTime st))
         (uint (CcDirtyPagesLastScan st)) (uint (CcDirtyPageTarget st)) \<and>
     CcDirtyPagesLastScan (fst (scan_start st)) = CcTotalDirtyPages st \<and>
     CcPagesYetToWrite (fst (scan_start st)) = l_PagesToWrite (snd (scan_start st)) \<and>
     CcPagesWrittenLastTime (fst (scan_start st)) = l_PagesToWrite (snd (scan_start st)) \<and>
     \<not> OtherWork (fst (scan_start st))"
  using assms by (simp add: scan_start_eq uint_initial uint_rate uint_final)

lemma scenario_A_simps:
  "CcTotalDirtyPages scenario_A = 100" "CcPagesWrittenLastTime scenario_A = 0"
  "CcDirtyPagesLastScan scenario_A = 100" "CcDirtyPageTarget scenario_A = 1000"
  by (simp_all add: scenario_A_def)

theorem budget_without_overflow_witness:
  "uint (l_PagesToWrite (snd (scan_start scenario_A))) = 12 \<and>
   uint (ForegroundRate scenario_A) = 0 \<and>
   CcPagesYetToWrite (fst (scan_start scenario_A)) = 12 \<and>
   CcDirtyPagesLastScan (fst (scan_start scenario_A)) = 100"
  using budget_without_overflow [of scenario_A]
  by (simp add: scenario_A_simps spec_initial_def spec_rate_def spec_PagesToWrite_def
      word_uint_eq_iff)

text \<open>With a dirty total of \<open>2 ^ 32 - 1\<close> and one page written last time the sum wraps
  to 0: the rate is 0 where the specification's is \<open>2 ^ 32\<close>, and the budgets differ.\<close>

theorem budget_overflow_counterexample:
  "uint (ForegroundRate (scenario_A\<lparr>CcTotalDirtyPages := 0xFFFFFFFF,
           CcPagesWrittenLastTime := 1, CcDirtyPagesLastScan := 0\<rparr>)) = 0 \<and>
   spec_rate 0xFFFFFFFF 1 0 = 0x100000000 \<and>
   uint (l_PagesToWrite (snd (scan_start (scenario_A\<lparr>CcTotalDirtyPages := 0xFFFFFFFF,
           CcPagesWrittenLastTime := 1, CcDirtyPagesLastScan := 0\<rparr>)))) \<noteq>
     spec_PagesToWrite 0xFFFFFFFF 1 0 1000"
  by (simp add: scan_start_eq scenario_A_simps spec_initial_def spec_rate_def spec_PagesToWrite_def
      ForegroundRate_def final_PagesToWrite_def EstimatedDirtyNextInterval_def
      initial_PagesToWrite_def LAZY_WRITER_MAX_AGE_TARGET_def)

text \<open>
  Claim C3, amended. Where the estimate is computed the budget is at most the dirty
  total, so the subtraction does not wrap. The sum with the foreground rate is the exact
  value, and the comparison with the target is the comparison of the exact values,
  whenever that sum is below \<open>2 ^ 32\<close>.
\<close>

theorem estimate_subtraction_exact:
  "initial_PagesToWrite st \<le> CcTotalDirtyPages st \<and>
   uint (CcTotalDirtyPages st - initial_PagesToWrite st) =
     uint (CcTotalDirtyPages st) - uint (initial_PagesToWrite st) \<and>
   (uint (CcTotalDirtyPages st) - uint (initial_PagesToWrite st) + uint (ForegroundRate st) < 2 ^ 32
      \<longrightarrow>
    uint (EstimatedDirtyNextInterval st) =
      uint (CcTotalDirtyPages st) - uint (initial_PagesToWrite st) + uint (ForegroundRate st) \<and>
    (EstimatedDirtyNextInterval st > CcDirtyPageTarget st) =
      (uint (CcTotalDirtyPages st) - uint (initial_PagesToWrite st) + uint (ForegroundRate st)
         > uint (CcDirtyPageTarget st)))"
proof (intro conjI impI)
  show "initial_PagesToWrite st \<le> CcTotalDirtyPages st" by (rule initial_le)
  show "uint (CcTotalDirtyPages st - initial_PagesToWrite st) =
     uint (CcTotalDirtyPages st) - uint (initial_PagesToWrite st)" by (rule uint_sub_initial)
  assume a: "uint (CcTotalDirtyPages st) - uint (initial_PagesToWrite st) + uint (ForegroundRate st) < 2 ^ 32"
  show e: "uint (EstimatedDirtyNextInterval st) =
      uint (CcTotalDirtyPages st) - uint (initial_PagesToWrite st) + uint (ForegroundRate st)"
    unfolding EstimatedDirtyNextInterval_def
    using a by (simp add: uint_add_lem [THEN iffD1] uint_sub_initial)
  show "(EstimatedDirtyNextInterval st > CcDirtyPageTarget st) =
      (uint (CcTotalDirtyPages st) - uint (initial_PagesToWrite st) + uint (ForegroundRate st)
         > uint (CcDirtyPageTarget st))"
    by (simp add: word_less_def e)
qed

theorem estimate_subtraction_exact_witness:
  "initial_PagesToWrite scenario_A = 12 \<and>
   uint (CcTotalDirtyPages scenario_A - initial_PagesToWrite scenario_A) = 88 \<and>
   uint (EstimatedDirtyNextInterval scenario_A) = 88 \<and>
   \<not> EstimatedDirtyNextInterval scenario_A > CcDirtyPageTarget scenario_A"
  using estimate_subtraction_exact [of scenario_A]
  by (simp add: scenario_A_simps initial_PagesToWrite_def ForegroundRate_def
      LAZY_WRITER_MAX_AGE_TARGET_def)

text \<open>With a dirty total of 9, \<open>2 ^ 32 - 10\<close> pages written last time and a target of
  1000 the rate is \<open>2 ^ 32 - 1\<close>, the estimate wraps to 7, and the comparison fails
  although the exact value is above the target.\<close>

theorem estimate_addition_wraps_counterexample:
  "\<not> ((EstimatedDirtyNextInterval (scenario_A\<lparr>CcTotalDirtyPages := 9,
           CcPagesWrittenLastTime := 0xFFFFFFF6, CcDirtyPagesLastScan := 0\<rparr>)
         > CcDirtyPageTarget (scenario_A\<lparr>CcTotalDirtyPages := 9,
           CcPagesWrittenLastTime := 0xFFFFFFF6, CcDirtyPagesLastScan := 0\<rparr>)) =
       (uint (9 :: ULONG) - uint (initial_PagesToWrite (scenario_A\<lparr>CcTotalDirtyPages := 9,
           CcPagesWrittenLastTime := 0xFFFFFFF6, CcDirtyPagesLastScan := 0\<rparr>)) +
        uint (ForegroundRate (scenario_A\<lparr>CcTotalDirtyPages := 9,
           CcPagesWrittenLastTime := 0xFFFFFFF6, CcDirtyPagesLastScan := 0\<rparr>))
         > uint (CcDirtyPageTarget (scenario_A\<lparr>CcTotalDirtyPages := 9,
           CcPagesWrittenLastTime := 0xFFFFFFF6, CcDirtyPagesLastScan := 0\<rparr>))))"
  by (simp add: scenario_A_simps ForegroundRate_def EstimatedDirtyNextInterval_def
      initial_PagesToWrite_def LAZY_WRITER_MAX_AGE_TARGET_def)

subsection \<open>One turn of the scan loop\<close>

lemma FlagOn_or: "FlagOn f (a OR b) = (FlagOn f a \<or> FlagOn f b)"
  by (simp add: FlagOn_def bit.conj_disj_distrib or_eq_0_iff)

lemma ClearFlag_SetFlag: "\<not> FlagOn f m \<Longrightarrow> ClearFlag (SetFlag f m) m = f"
  unfolding FlagOn_def SetFlag_def ClearFlag_def
  by (auto simp: bit_eq_iff bit_simps)

lemma FlagOn_SetFlag_self: "m \<noteq> 0 \<Longrightarrow> FlagOn (SetFlag f m) m"
  by (simp add: FlagOn_def SetFlag_def bit.conj_disj_distrib2)

lemma FlagOn_SetFlag_other:
  "m AND n = 0 \<Longrightarrow> FlagOn (SetFlag f m) n = FlagOn f n"
  by (simp add: FlagOn_def SetFlag_def bit.conj_disj_distrib2)

lemma WQ_WFT [simp]: "WRITE_QUEUED AND WAITING_FOR_TEARDOWN = 0"
  by (simp add: WRITE_QUEUED_def WAITING_FOR_TEARDOWN_def)

lemma WQ_nonzero [simp]: "WRITE_QUEUED \<noteq> 0"
  by (simp add: WRITE_QUEUED_def)


lemma wait_locked_eq:
  "wait_locked st ev =
     st\<lparr>MasterLockHeld := False, OtherWork := True, ScanActive := True,
        CcPostTickWorkQueue := CcPostTickWorkQueue st @ [EventSet ev],
        ScanTimer := (if ScanActive st then ScanTimer st else Some CcNoDelay)\<rparr>"
  by (simp add: wait_locked_def CcAcquireMasterLock_def CcReleaseMasterLock_def Let_def
      InsertTailList_def CcScheduleLazyWriteScan_def schedule_stmts_def)

lemma foldl_wait_locked:
  "foldl wait_locked st evs =
     (if evs = [] then st
      else st\<lparr>MasterLockHeld := False, OtherWork := True, ScanActive := True,
        CcPostTickWorkQueue := CcPostTickWorkQueue st @ map EventSet evs,
        ScanTimer := (if ScanActive st then ScanTimer st else Some CcNoDelay)\<rparr>)"
  by (induction evs rule: rev_induct) (simp_all add: wait_locked_eq)

lemma other_threads_eq:
  "other_threads env st =
     (if Arrivals env (Windows st) = []
      then st\<lparr>Windows := Suc (Windows st),
              WindowViews := WindowViews st @ [(MasterLockHeld st, Scm st)]\<rparr>
      else st\<lparr>MasterLockHeld := False, OtherWork := True, ScanActive := True,
        CcPostTickWorkQueue := CcPostTickWorkQueue st @ map EventSet (Arrivals env (Windows st)),
        ScanTimer := (if ScanActive st then ScanTimer st else Some CcNoDelay),
        Windows := Suc (Windows st),
        WindowViews := WindowViews st @ [(MasterLockHeld st, Scm st)]\<rparr>)"
  by (simp add: other_threads_def foldl_wait_locked)

lemma other_threads_fields [simp]:
  "Scm (other_threads env st) = Scm st"
  "DirtyList (other_threads env st) = DirtyList st"
  "ExpressQueue (other_threads env st) = ExpressQueue st"
  "RegularQueue (other_threads env st) = RegularQueue st"
  "CcIdleWorkerThreadList (other_threads env st) = CcIdleWorkerThreadList st"
  "CcQueueThrottle (other_threads env st) = CcQueueThrottle st"
  "CcCapturedSystemSize (other_threads env st) = CcCapturedSystemSize st"
  "Allocations (other_threads env st) = Allocations st"
  "Windows (other_threads env st) = Suc (Windows st)"
  "WindowViews (other_threads env st) = WindowViews st @ [(MasterLockHeld st, Scm st)]"
  "CcPostTickWorkQueue (other_threads env st) =
     CcPostTickWorkQueue st @ map EventSet (Arrivals env (Windows st))"
  by (simp_all add: other_threads_eq)

lemma update_scm_fields [simp]:
  "Scm (update_scm a f st) = (Scm st)(a := f (Scm st a))"
  "DirtyList (update_scm a f st) = DirtyList st"
  "ExpressQueue (update_scm a f st) = ExpressQueue st"
  "RegularQueue (update_scm a f st) = RegularQueue st"
  "CcIdleWorkerThreadList (update_scm a f st) = CcIdleWorkerThreadList st"
  "CcQueueThrottle (update_scm a f st) = CcQueueThrottle st"
  "CcCapturedSystemSize (update_scm a f st) = CcCapturedSystemSize st"
  "Allocations (update_scm a f st) = Allocations st"
  "Windows (update_scm a f st) = Windows st"
  "CcPostTickWorkQueue (update_scm a f st) = CcPostTickWorkQueue st"
  "MasterLockHeld (update_scm a f st) = MasterLockHeld st"
  by (simp_all add: update_scm_def)

lemma CcPostWorkQueue_fields [simp]:
  "Scm (CcPostWorkQueue e q st) = Scm st"
  "DirtyList (CcPostWorkQueue e q st) = DirtyList st"
  "ExpressQueue (CcPostWorkQueue e q st) =
     (if q = CcExpressWorkQueue then ExpressQueue st @ [e] else ExpressQueue st)"
  "RegularQueue (CcPostWorkQueue e q st) =
     (if q = CcRegularWorkQueue then RegularQueue st @ [e] else RegularQueue st)"
  "CcQueueThrottle (CcPostWorkQueue e q st) = CcQueueThrottle st"
  "CcCapturedSystemSize (CcPostWorkQueue e q st) = CcCapturedSystemSize st"
  "Allocations (CcPostWorkQueue e q st) = Allocations st"
  "Windows (CcPostWorkQueue e q st) = Windows st"
  "CcPostTickWorkQueue (CcPostWorkQueue e q st) = CcPostTickWorkQueue st"
  "MasterLockHeld (CcPostWorkQueue e q st) = MasterLockHeld st"
  by (simp_all add: CcPostWorkQueue_def queue_update_def Let_def InsertTailList_def
      split: work_queue.splits)

lemma scan_pin_fields [simp]:
  "Scm (scan_pin a st) =
     (Scm st)(a := (Scm st a)\<lparr>Flags := SetFlag (Flags (Scm st a)) WRITE_QUEUED,
                               DirtyPages := DirtyPages (Scm st a) + 1\<rparr>)"
  "DirtyList (scan_pin a st) = DirtyList st"
  "ExpressQueue (scan_pin a st) = ExpressQueue st"
  "RegularQueue (scan_pin a st) = RegularQueue st"
  "CcIdleWorkerThreadList (scan_pin a st) = CcIdleWorkerThreadList st"
  "CcQueueThrottle (scan_pin a st) = CcQueueThrottle st"
  "CcCapturedSystemSize (scan_pin a st) = CcCapturedSystemSize st"
  "Allocations (scan_pin a st) = Allocations st"
  "Windows (scan_pin a st) = Windows st"
  "CcPostTickWorkQueue (scan_pin a st) = CcPostTickWorkQueue st"
  "MasterLockHeld (scan_pin a st) = False"
  by (simp_all add: scan_pin_def CcReleaseMasterLock_def)

lemma scan_unpin_fields [simp]:
  "Scm (scan_unpin a st) =
     (Scm st)(a := (Scm st a)\<lparr>Flags := ClearFlag (Flags (Scm st a)) WRITE_QUEUED,
                               DirtyPages := DirtyPages (Scm st a) - 1\<rparr>)"
  "DirtyList (scan_unpin a st) = DirtyList st"
  "ExpressQueue (scan_unpin a st) = ExpressQueue st"
  "RegularQueue (scan_unpin a st) = RegularQueue st"
  "CcIdleWorkerThreadList (scan_unpin a st) = CcIdleWorkerThreadList st"
  "CcQueueThrottle (scan_unpin a st) = CcQueueThrottle st"
  "CcCapturedSystemSize (scan_unpin a st) = CcCapturedSystemSize st"
  "Allocations (scan_unpin a st) = Allocations st"
  "Windows (scan_unpin a st) = Windows st"
  "CcPostTickWorkQueue (scan_unpin a st) = CcPostTickWorkQueue st"
  "MasterLockHeld (scan_unpin a st) = True"
  by (simp_all add: scan_unpin_def CcAcquireMasterLock_def)

lemma adjust_targets_fields [simp]:
  "Scm (fst (adjust_targets st l)) = Scm st"
  "ExpressQueue (fst (adjust_targets st l)) = ExpressQueue st"
  "RegularQueue (fst (adjust_targets st l)) = RegularQueue st"
  "CcIdleWorkerThreadList (fst (adjust_targets st l)) = CcIdleWorkerThreadList st"
  "CcQueueThrottle (fst (adjust_targets st l)) = CcQueueThrottle st"
  "CcCapturedSystemSize (fst (adjust_targets st l)) = CcCapturedSystemSize st"
  "Allocations (fst (adjust_targets st l)) = Allocations st"
  "Windows (fst (adjust_targets st l)) = Windows st"
  "CcPostTickWorkQueue (fst (adjust_targets st l)) = CcPostTickWorkQueue st"
  "MasterLockHeld (fst (adjust_targets st l)) = MasterLockHeld st"
  "SharedCacheMap (snd (adjust_targets st l)) = SharedCacheMap l"
  "FirstVisited (snd (adjust_targets st l)) = FirstVisited l"
  "PostTickWorkQueue (snd (adjust_targets st l)) = PostTickWorkQueue l"
  by (simp_all add: adjust_targets_def Let_def)

lemma scan_advance_fields [simp]:
  "Scm (fst (scan_advance st l)) = Scm st"
  "ExpressQueue (fst (scan_advance st l)) = ExpressQueue st"
  "RegularQueue (fst (scan_advance st l)) = RegularQueue st"
  "CcIdleWorkerThreadList (fst (scan_advance st l)) = CcIdleWorkerThreadList st"
  "CcQueueThrottle (fst (scan_advance st l)) = CcQueueThrottle st"
  "CcCapturedSystemSize (fst (scan_advance st l)) = CcCapturedSystemSize st"
  "Allocations (fst (scan_advance st l)) = Allocations st"
  "Windows (fst (scan_advance st l)) = Windows st"
  "CcPostTickWorkQueue (fst (scan_advance st l)) = CcPostTickWorkQueue st"
  "MasterLockHeld (fst (scan_advance st l)) = MasterLockHeld st"
  "SharedCacheMap (snd (scan_advance st l)) = Flink (DirtyList st) (SharedCacheMap l)"
  "FirstVisited (snd (scan_advance st l)) = FirstVisited l"
  "PostTickWorkQueue (snd (scan_advance st l)) = PostTickWorkQueue l"
  "l_PagesToWrite (snd (scan_advance st l)) = l_PagesToWrite l"
  "AlreadyMoved (snd (scan_advance st l)) = AlreadyMoved l"
  "MoveBehindCursor (snd (scan_advance st l)) = False"
  by (simp_all add: scan_advance_def Let_def)

lemma scan_post_fields [simp]:
  "Scm (fst (scan_post a st l)) =
     (Scm st)(a := (Scm st a)\<lparr>DirtyPages := DirtyPages (Scm st a) - 1\<rparr>)"
  "DirtyList (fst (scan_post a st l)) = DirtyList st"
  "ExpressQueue (fst (scan_post a st l)) =
     (if FlagOn (Flags (Scm st a)) WAITING_FOR_TEARDOWN
      then ExpressQueue st @ [WriteBehind a] else ExpressQueue st)"
  "RegularQueue (fst (scan_post a st l)) =
     (if FlagOn (Flags (Scm st a)) WAITING_FOR_TEARDOWN
      then RegularQueue st else RegularQueue st @ [WriteBehind a])"
  "CcQueueThrottle (fst (scan_post a st l)) = CcQueueThrottle st"
  "CcCapturedSystemSize (fst (scan_post a st l)) = CcCapturedSystemSize st"
  "Allocations (fst (scan_post a st l)) = Allocations st"
  "Windows (fst (scan_post a st l)) = Windows st"
  "CcPostTickWorkQueue (fst (scan_post a st l)) = CcPostTickWorkQueue st"
  "MasterLockHeld (fst (scan_post a st l)) = True"
  "snd (scan_post a st l) = l\<lparr>LoopsWithLockHeld := 0\<rparr>"
  by (simp_all add: scan_post_def Let_def CcAcquireMasterLock_def)

lemma scan_courtesy_fields [simp]:
  "DirtyList (fst (scan_courtesy env st l)) = DirtyList st"
  "ExpressQueue (fst (scan_courtesy env st l)) = ExpressQueue st"
  "RegularQueue (fst (scan_courtesy env st l)) = RegularQueue st"
  "CcIdleWorkerThreadList (fst (scan_courtesy env st l)) = CcIdleWorkerThreadList st"
  "CcQueueThrottle (fst (scan_courtesy env st l)) = CcQueueThrottle st"
  "CcCapturedSystemSize (fst (scan_courtesy env st l)) = CcCapturedSystemSize st"
  "Allocations (fst (scan_courtesy env st l)) = Allocations st"
  "SharedCacheMap (snd (scan_courtesy env st l)) = SharedCacheMap l"
  "FirstVisited (snd (scan_courtesy env st l)) = FirstVisited l"
  "PostTickWorkQueue (snd (scan_courtesy env st l)) = PostTickWorkQueue l"
  "l_PagesToWrite (snd (scan_courtesy env st l)) = l_PagesToWrite l"
  "AlreadyMoved (snd (scan_courtesy env st l)) = AlreadyMoved l"
  "MoveBehindCursor (snd (scan_courtesy env st l)) = MoveBehindCursor l"
  by (simp_all add: scan_courtesy_def Let_def)

lemma scan_condition_eq:
  "fst (scan_condition env sz ptw a s) = dispatch_condition env sz ptw a s"
  by (auto simp: scan_condition_def dispatch_condition_def lazy_close_or_empty_def Let_def
      FlagOn_or)

lemma CcAllocateWorkQueueEntry_simps [simp]:
  "fst (CcAllocateWorkQueueEntry env st) = AllocateOk env (Allocations st)"
  "snd (CcAllocateWorkQueueEntry env st) = st\<lparr>Allocations := Suc (Allocations st)\<rparr>"
  by (simp_all add: CcAllocateWorkQueueEntry_def)

lemma snd_scan_condition_fields [simp]:
  "Flags (snd (scan_condition env sz ptw a s)) = Flags s"
  "DirtyPages (snd (scan_condition env sz ptw a s)) = DirtyPages s"
  "OpenCount (snd (scan_condition env sz ptw a s)) = OpenCount s"
  "FileSize (snd (scan_condition env sz ptw a s)) = FileSize s"
  "FileObject (snd (scan_condition env sz ptw a s)) = FileObject s"
  "PagesToWrite (snd (scan_condition env sz ptw a s)) = PagesToWrite s"
  by (simp_all add: scan_condition_def Let_def)

lemma set_PagesToWrite_fields [simp]:
  "Flags (set_PagesToWrite sz s) = Flags s"
  "DirtyPages (set_PagesToWrite sz s) = DirtyPages s"
  "OpenCount (set_PagesToWrite sz s) = OpenCount s"
  "FileSize (set_PagesToWrite sz s) = FileSize s"
  "FileObject (set_PagesToWrite sz s) = FileObject s"
  "LazyWritePassCount (set_PagesToWrite sz s) = LazyWritePassCount s"
  by (simp_all add: set_PagesToWrite_def Let_def)

lemma scan_body_left:
  "fst (scan_body env st l) =
     (dispatch_condition env (CcCapturedSystemSize st) (l_PagesToWrite l) (SharedCacheMap l)
           (Scm st (SharedCacheMap l)) \<and> \<not> AllocateOk env (Allocations st))"
  by (simp add: scan_body_def Let_def split_def scan_condition_eq [symmetric])

lemma scan_body_ExpressQueue:
  "ExpressQueue (fst (snd (scan_body env st l))) =
     (if dispatch_condition env (CcCapturedSystemSize st) (l_PagesToWrite l) (SharedCacheMap l)
           (Scm st (SharedCacheMap l)) \<and> AllocateOk env (Allocations st) \<and>
         FlagOn (Flags (Scm st (SharedCacheMap l))) WAITING_FOR_TEARDOWN
      then ExpressQueue st @ [WriteBehind (SharedCacheMap l)] else ExpressQueue st)"
  by (simp add: scan_body_def Let_def split_def scan_condition_eq [symmetric]
      FlagOn_SetFlag_other)

lemma scan_body_RegularQueue:
  "RegularQueue (fst (snd (scan_body env st l))) =
     (if dispatch_condition env (CcCapturedSystemSize st) (l_PagesToWrite l) (SharedCacheMap l)
           (Scm st (SharedCacheMap l)) \<and> AllocateOk env (Allocations st) \<and>
         \<not> FlagOn (Flags (Scm st (SharedCacheMap l))) WAITING_FOR_TEARDOWN
      then RegularQueue st @ [WriteBehind (SharedCacheMap l)] else RegularQueue st)"
  by (simp add: scan_body_def Let_def split_def scan_condition_eq [symmetric]
      FlagOn_SetFlag_other)

lemma index_of_append [simp]: "x \<notin> set xs \<Longrightarrow> index_of x (xs @ x # ys) = length xs"
  by (induction xs) auto

lemma InsertHeadList_at_split:
  "a \<notin> set xs \<Longrightarrow> InsertHeadList_at (xs @ a # ys) a c = xs @ a # c # ys"
  by (induction xs) auto

lemma InsertTailList_at_split:
  "a \<notin> set xs \<Longrightarrow> InsertTailList_at (xs @ a # ys) a c = xs @ c # a # ys"
  by (induction xs) auto

lemma Flink_InsertHeadList_at:
  assumes "distinct r" "a \<in> set r" "c \<notin> set r"
  shows "Flink (InsertHeadList_at r a c) a = c"
    and "Flink (InsertHeadList_at r a c) c = Flink r a"
proof -
  from assms(2) obtain xs ys where r: "r = xs @ a # ys" by (auto dest: split_list)
  with assms have n: "a \<notin> set xs" "a \<notin> set ys" "c \<notin> set xs" "c \<noteq> a" "c \<notin> set ys" by auto
  have i: "InsertHeadList_at r a c = xs @ a # c # ys"
    unfolding r using n by (simp add: InsertHeadList_at_split)
  show "Flink (InsertHeadList_at r a c) a = c"
    unfolding i Flink_def using n by (simp add: nth_append)
  have "index_of c (xs @ a # c # ys) = Suc (length xs)"
    using index_of_append [of c "xs @ [a]" ys] n by simp
  then show "Flink (InsertHeadList_at r a c) c = Flink r a"
    unfolding i unfolding r Flink_def using n
    by (cases ys) (simp_all add: nth_append)
qed

lemma Flink_InsertTailList_at:
  assumes "distinct r" "a \<in> set r" "c \<notin> set r"
  shows "Flink (InsertTailList_at r a c) c = a"
proof -
  from assms(2) obtain xs ys where r: "r = xs @ a # ys" by (auto dest: split_list)
  with assms have n: "a \<notin> set xs" "a \<notin> set ys" "c \<notin> set xs" "c \<noteq> a" "c \<notin> set ys" by auto
  have i: "InsertTailList_at r a c = xs @ c # a # ys"
    unfolding r using n by (simp add: InsertTailList_at_split)
  show ?thesis
    unfolding i Flink_def using n by (simp add: nth_append)
qed

lemma RemoveEntryList_props:
  "distinct r \<Longrightarrow> distinct (RemoveEntryList r c)"
  "c \<notin> set (RemoveEntryList r c)"
  "a \<in> set r \<Longrightarrow> a \<noteq> c \<Longrightarrow> a \<in> set (RemoveEntryList r c)"
  by (simp_all add: RemoveEntryList_def distinct_removeAll)


text \<open>
  Claim C1. For the stream \<open>SharedCacheMap l\<close> that a turn of the loop looks at, the
  condition of the source has the value of \<open>dispatch_condition\<close>, the condition in the
  words of the claim. The turn dispatches the stream (it posts a work entry, or it leaves
  the loop because none could be allocated) exactly when the condition holds; when the
  allocation succeeds, a \<^verbatim>\<open>WriteBehind\<close> entry for the stream is appended to one of the
  two queues exactly when the condition holds. A stream of size 0 that is neither queued
  nor a cursor satisfies the condition whatever its open count and dirty pages are.
\<close>

theorem dispatch_iff_condition:
  "fst (scan_condition env (CcCapturedSystemSize st) (l_PagesToWrite l) (SharedCacheMap l)
          (Scm st (SharedCacheMap l))) =
     dispatch_condition env (CcCapturedSystemSize st) (l_PagesToWrite l) (SharedCacheMap l)
          (Scm st (SharedCacheMap l)) \<and>
   (fst (scan_body env st l) \<or>
    ExpressQueue (fst (snd (scan_body env st l))) \<noteq> ExpressQueue st \<or>
    RegularQueue (fst (snd (scan_body env st l))) \<noteq> RegularQueue st) =
     dispatch_condition env (CcCapturedSystemSize st) (l_PagesToWrite l) (SharedCacheMap l)
          (Scm st (SharedCacheMap l)) \<and>
   (AllocateOk env (Allocations st) \<longrightarrow>
      (ExpressQueue (fst (snd (scan_body env st l))) =
         ExpressQueue st @ [WriteBehind (SharedCacheMap l)] \<and>
       RegularQueue (fst (snd (scan_body env st l))) = RegularQueue st \<or>
       RegularQueue (fst (snd (scan_body env st l))) =
         RegularQueue st @ [WriteBehind (SharedCacheMap l)] \<and>
       ExpressQueue (fst (snd (scan_body env st l))) = ExpressQueue st) =
      dispatch_condition env (CcCapturedSystemSize st) (l_PagesToWrite l) (SharedCacheMap l)
          (Scm st (SharedCacheMap l))) \<and>
   (FileSize (Scm st (SharedCacheMap l)) = 0 \<and>
    \<not> FlagOn (Flags (Scm st (SharedCacheMap l))) WRITE_QUEUED \<and>
    \<not> FlagOn (Flags (Scm st (SharedCacheMap l))) IS_CURSOR \<longrightarrow>
      dispatch_condition env (CcCapturedSystemSize st) (l_PagesToWrite l) (SharedCacheMap l)
          (Scm st (SharedCacheMap l)))"
proof (intro conjI impI)
  show "fst (scan_condition env (CcCapturedSystemSize st) (l_PagesToWrite l) (SharedCacheMap l)
          (Scm st (SharedCacheMap l))) =
     dispatch_condition env (CcCapturedSystemSize st) (l_PagesToWrite l) (SharedCacheMap l)
          (Scm st (SharedCacheMap l))"
    by (rule scan_condition_eq)
  show "(fst (scan_body env st l) \<or>
    ExpressQueue (fst (snd (scan_body env st l))) \<noteq> ExpressQueue st \<or>
    RegularQueue (fst (snd (scan_body env st l))) \<noteq> RegularQueue st) =
     dispatch_condition env (CcCapturedSystemSize st) (l_PagesToWrite l) (SharedCacheMap l)
          (Scm st (SharedCacheMap l))"
    by (auto simp: scan_body_left scan_body_ExpressQueue scan_body_RegularQueue)
  show "(ExpressQueue (fst (snd (scan_body env st l))) =
         ExpressQueue st @ [WriteBehind (SharedCacheMap l)] \<and>
       RegularQueue (fst (snd (scan_body env st l))) = RegularQueue st \<or>
       RegularQueue (fst (snd (scan_body env st l))) =
         RegularQueue st @ [WriteBehind (SharedCacheMap l)] \<and>
       ExpressQueue (fst (snd (scan_body env st l))) = ExpressQueue st) =
      dispatch_condition env (CcCapturedSystemSize st) (l_PagesToWrite l) (SharedCacheMap l)
          (Scm st (SharedCacheMap l))" if "AllocateOk env (Allocations st)"
    using that by (simp add: scan_body_ExpressQueue scan_body_RegularQueue)
  show "dispatch_condition env (CcCapturedSystemSize st) (l_PagesToWrite l) (SharedCacheMap l)
          (Scm st (SharedCacheMap l))"
    if "FileSize (Scm st (SharedCacheMap l)) = 0 \<and>
    \<not> FlagOn (Flags (Scm st (SharedCacheMap l))) WRITE_QUEUED \<and>
    \<not> FlagOn (Flags (Scm st (SharedCacheMap l))) IS_CURSOR"
    using that by (simp add: dispatch_condition_def)
qed

lemma scan_body_Scm:
  assumes "dispatch_condition env (CcCapturedSystemSize st) (l_PagesToWrite l) (SharedCacheMap l)
          (Scm st (SharedCacheMap l))"
  shows "Flags (Scm (fst (snd (scan_body env st l))) (SharedCacheMap l)) =
           (if AllocateOk env (Allocations st)
            then SetFlag (Flags (Scm st (SharedCacheMap l))) WRITE_QUEUED
            else Flags (Scm st (SharedCacheMap l)))"
    and "DirtyPages (Scm (fst (snd (scan_body env st l))) (SharedCacheMap l)) =
           DirtyPages (Scm st (SharedCacheMap l))"
    and "MasterLockHeld (fst (snd (scan_body env st l)))"
proof -
  from assms have n: "\<not> FlagOn (Flags (Scm st (SharedCacheMap l))) WRITE_QUEUED"
    by (simp add: dispatch_condition_def)
  from assms show "Flags (Scm (fst (snd (scan_body env st l))) (SharedCacheMap l)) =
           (if AllocateOk env (Allocations st)
            then SetFlag (Flags (Scm st (SharedCacheMap l))) WRITE_QUEUED
            else Flags (Scm st (SharedCacheMap l)))"
    using n by (simp add: scan_body_def Let_def split_def scan_condition_eq ClearFlag_SetFlag)
  from assms show "DirtyPages (Scm (fst (snd (scan_body env st l))) (SharedCacheMap l)) =
           DirtyPages (Scm st (SharedCacheMap l))"
    by (simp add: scan_body_def Let_def split_def scan_condition_eq)
  from assms show "MasterLockHeld (fst (snd (scan_body env st l)))"
    by (simp add: scan_body_def Let_def split_def scan_condition_eq)
qed

lemma WindowViews_frames [simp]:
  "WindowViews (update_scm a f st) = WindowViews st"
  "WindowViews (CcPostWorkQueue e q st) = WindowViews st"
  "WindowViews (scan_pin a st) = WindowViews st"
  "WindowViews (scan_unpin a st) = WindowViews st"
  "WindowViews (fst (adjust_targets st l)) = WindowViews st"
  "WindowViews (fst (scan_advance st l)) = WindowViews st"
  "WindowViews (fst (scan_post a st l)) = WindowViews st"
  "WindowViews (snd (CcAllocateWorkQueueEntry env st)) = WindowViews st"
  by (simp_all add: update_scm_def CcPostWorkQueue_def queue_update_def Let_def
      scan_pin_def scan_unpin_def adjust_targets_def scan_advance_def scan_post_def
      CcAcquireMasterLock_def CcReleaseMasterLock_def
      split: work_queue.splits)

lemma scan_body_WindowViews:
  assumes "dispatch_condition env (CcCapturedSystemSize st) (l_PagesToWrite l) (SharedCacheMap l)
          (Scm st (SharedCacheMap l))"
  shows "\<exists>V. WindowViews (fst (snd (scan_body env st l))) = WindowViews st @ [(False, V)] \<and>
             Flags (V (SharedCacheMap l)) = SetFlag (Flags (Scm st (SharedCacheMap l))) WRITE_QUEUED \<and>
             DirtyPages (V (SharedCacheMap l)) = DirtyPages (Scm st (SharedCacheMap l)) + 1"
    and "Allocations (fst (snd (scan_body env st l))) = Suc (Allocations st)"
    and "Windows (fst (snd (scan_body env st l))) = Suc (Windows st)"
  using assms by (simp_all add: scan_body_def Let_def split_def scan_condition_eq)

text \<open>
  Claim C5. Let the stream \<open>SharedCacheMap l\<close> be dispatched in a turn that begins with the
  master lock held, as every turn of the loop does. The turn has one window and one
  allocation. In that window the other threads find the lock free and the stream with
  \<^verbatim>\<open>WRITE_QUEUED\<close> set and one dirty page more than before the turn: the mark and the pin
  were put on before the lock was let go. If the allocation fails, the loop is left with
  the lock held, the flags and the dirty pages of the stream as they were before, and no
  queue changed. If it succeeds, the turn ends with the lock held, \<^verbatim>\<open>WRITE_QUEUED\<close> set,
  the dirty pages as before, and the \<^verbatim>\<open>WriteBehind\<close> entry at the tail of the express
  queue when the stream waits for teardown, of the regular queue otherwise.
\<close>

theorem dispatch_pins_and_unpins:
  assumes "dispatch_condition env (CcCapturedSystemSize st) (l_PagesToWrite l) (SharedCacheMap l)
          (Scm st (SharedCacheMap l))"
    and "MasterLockHeld st"
  shows "(\<exists>V. WindowViews (fst (snd (scan_body env st l))) = WindowViews st @ [(False, V)] \<and>
            FlagOn (Flags (V (SharedCacheMap l))) WRITE_QUEUED \<and>
            Flags (V (SharedCacheMap l)) = SetFlag (Flags (Scm st (SharedCacheMap l))) WRITE_QUEUED \<and>
            DirtyPages (V (SharedCacheMap l)) = DirtyPages (Scm st (SharedCacheMap l)) + 1) \<and>
     Windows (fst (snd (scan_body env st l))) = Suc (Windows st) \<and>
     Allocations (fst (snd (scan_body env st l))) = Suc (Allocations st) \<and>
     (\<not> AllocateOk env (Allocations st) \<longrightarrow>
        fst (scan_body env st l) \<and>
        MasterLockHeld (fst (snd (scan_body env st l))) \<and>
        Flags (Scm (fst (snd (scan_body env st l))) (SharedCacheMap l)) =
          Flags (Scm st (SharedCacheMap l)) \<and>
        DirtyPages (Scm (fst (snd (scan_body env st l))) (SharedCacheMap l)) =
          DirtyPages (Scm st (SharedCacheMap l)) \<and>
        ExpressQueue (fst (snd (scan_body env st l))) = ExpressQueue st \<and>
        RegularQueue (fst (snd (scan_body env st l))) = RegularQueue st) \<and>
     (AllocateOk env (Allocations st) \<longrightarrow>
        \<not> fst (scan_body env st l) \<and>
        MasterLockHeld (fst (snd (scan_body env st l))) \<and>
        FlagOn (Flags (Scm (fst (snd (scan_body env st l))) (SharedCacheMap l))) WRITE_QUEUED \<and>
        DirtyPages (Scm (fst (snd (scan_body env st l))) (SharedCacheMap l)) =
          DirtyPages (Scm st (SharedCacheMap l)) \<and>
        (if FlagOn (Flags (Scm st (SharedCacheMap l))) WAITING_FOR_TEARDOWN
         then ExpressQueue (fst (snd (scan_body env st l))) =
                ExpressQueue st @ [WriteBehind (SharedCacheMap l)] \<and>
              RegularQueue (fst (snd (scan_body env st l))) = RegularQueue st
         else RegularQueue (fst (snd (scan_body env st l))) =
                RegularQueue st @ [WriteBehind (SharedCacheMap l)] \<and>
              ExpressQueue (fst (snd (scan_body env st l))) = ExpressQueue st))"
proof (intro conjI impI)
  from scan_body_WindowViews(1) [OF assms(1)]
  show "\<exists>V. WindowViews (fst (snd (scan_body env st l))) = WindowViews st @ [(False, V)] \<and>
            FlagOn (Flags (V (SharedCacheMap l))) WRITE_QUEUED \<and>
            Flags (V (SharedCacheMap l)) = SetFlag (Flags (Scm st (SharedCacheMap l))) WRITE_QUEUED \<and>
            DirtyPages (V (SharedCacheMap l)) = DirtyPages (Scm st (SharedCacheMap l)) + 1"
    by (auto simp: FlagOn_SetFlag_self)
qed (use assms in \<open>simp_all add: scan_body_left scan_body_ExpressQueue scan_body_RegularQueue
      scan_body_Scm scan_body_WindowViews FlagOn_SetFlag_self\<close>)

lemma quiescent_start:
  "CcTotalDirtyPages st = 0 \<Longrightarrow> \<not> OtherWork st \<Longrightarrow>
   CcLazyWriteScan env st =
     (if IsListEmpty (CcDeferredWrites st)
      then Some (st\<lparr>ScanActive := False, MasterLockHeld := False\<rparr>)
      else Some (CcScheduleLazyWriteScan False
                   (CcPostDeferredWrites (st\<lparr>MasterLockHeld := False\<rparr>))))"
  by (simp add: CcLazyWriteScan_def CcAcquireMasterLock_def CcReleaseMasterLock_def Let_def)

text \<open>
  Claim C8. With no dirty page and \<^verbatim>\<open>OtherWork\<close> clear: if the deferred-write list is
  empty the scan only clears \<^verbatim>\<open>ScanActive\<close> (nothing else of the state changes, so no
  timer is armed and no queue is touched); otherwise it calls \<^verbatim>\<open>CcPostDeferredWrites\<close> and
  then \<open>CcScheduleLazyWriteScan False\<close>, which, \<^verbatim>\<open>ScanActive\<close> being set, arms the idle
  delay and leaves \<^verbatim>\<open>ScanActive\<close> set.
\<close>

theorem quiescent_scan:
  assumes "CcTotalDirtyPages st = 0" and "\<not> OtherWork st"
  shows "(CcDeferredWrites st = [] \<longrightarrow>
            CcLazyWriteScan env st = Some (st\<lparr>ScanActive := False, MasterLockHeld := False\<rparr>)) \<and>
         (CcDeferredWrites st \<noteq> [] \<longrightarrow>
            CcLazyWriteScan env st =
              Some (CcScheduleLazyWriteScan False
                      (CcPostDeferredWrites (st\<lparr>MasterLockHeld := False\<rparr>))) \<and>
            (ScanActive st \<longrightarrow>
               CcLazyWriteScan env st =
                 Some (st\<lparr>MasterLockHeld := False,
                          PostDeferredWritesCalls := Suc (PostDeferredWritesCalls st),
                          ScanTimer := Some CcIdleDelay\<rparr>)))"
  using assms
  by (simp add: quiescent_start IsListEmpty_def CcPostDeferredWrites_def
      CcScheduleLazyWriteScan_def schedule_stmts_def)


lemma scan_body_dispatched:
  assumes "dispatch_condition env (CcCapturedSystemSize st) (l_PagesToWrite l) (SharedCacheMap l)
          (Scm st (SharedCacheMap l))"
  shows "DirtyList (fst (snd (scan_body env st l))) =
     (let l1 = (if FirstVisited l = None then l\<lparr>FirstVisited := Some (SharedCacheMap l)\<rparr> else l);
          st2 = update_scm (SharedCacheMap l)
                  (\<lambda>_. set_PagesToWrite (CcCapturedSystemSize st)
                     (snd (scan_condition env (CcCapturedSystemSize st) (l_PagesToWrite l)
                        (SharedCacheMap l) (Scm st (SharedCacheMap l))))) st;
          r = DirtyList (fst (adjust_targets st2 l1))
      in if AllocateOk env (Allocations st) \<and> MoveBehindCursor (snd (adjust_targets st2 l1))
         then InsertHeadList_at (RemoveEntryList r CcLazyWriterCursor) (SharedCacheMap l)
                CcLazyWriterCursor
         else r)"
    and "snd (snd (scan_body env st l)) =
     (let l1 = (if FirstVisited l = None then l\<lparr>FirstVisited := Some (SharedCacheMap l)\<rparr> else l);
          st2 = update_scm (SharedCacheMap l)
                  (\<lambda>_. set_PagesToWrite (CcCapturedSystemSize st)
                     (snd (scan_condition env (CcCapturedSystemSize st) (l_PagesToWrite l)
                        (SharedCacheMap l) (Scm st (SharedCacheMap l))))) st;
          l3 = snd (adjust_targets st2 l1)
      in if AllocateOk env (Allocations st)
         then l3\<lparr>LoopsWithLockHeld := 0, MoveBehindCursor := False,
                 SharedCacheMap := Flink (DirtyList (fst (adjust_targets st2 l1))) (SharedCacheMap l)\<rparr>
         else l3)"
  using assms
  by (simp_all add: scan_body_def Let_def split_def scan_condition_eq scan_advance_def update_scm_def)


text \<open>
  Claim C4, amended. Let the stream \<open>a\<close> of this turn be dispatched while the cursor has
  not been moved, in a ring of different nodes; \<open>S\<close> is the stream after lines 263 to
  268. If \<open>PagesToWrite S\<close> is at least the budget left, the budget becomes 0 and
  \<^verbatim>\<open>AlreadyMoved\<close> is set, and
  \<^item> for a metadata stream, or the first visited stream with a pass count that is 0 modulo
    16: when the work entry is allocated, the cursor is linked in right after \<open>a\<close>, the
    loop goes on with the node that followed \<open>a\<close> before the move, and the next tick
    starts at the successor of \<open>a\<close>; when the allocation fails, the loop is left and the
    cursor stays where it was;
  \<^item> otherwise the cursor is linked in right before \<open>a\<close>.
  If \<open>PagesToWrite S\<close> is below the budget, the budget decreases by it and the cursor does
  not move.
\<close>

theorem cursor_movement:
  assumes "dispatch_condition env (CcCapturedSystemSize st) (l_PagesToWrite l) (SharedCacheMap l)
          (Scm st (SharedCacheMap l))"
    and "\<not> AlreadyMoved l" and "\<not> MoveBehindCursor l"
    and "distinct (DirtyList st)" and "SharedCacheMap l \<in> set (DirtyList st)"
    and "SharedCacheMap l \<noteq> CcLazyWriterCursor"
  shows
   "(let a = SharedCacheMap l;
         S = set_PagesToWrite (CcCapturedSystemSize st)
               (snd (scan_condition env (CcCapturedSystemSize st) (l_PagesToWrite l) a (Scm st a)));
         behind = (FlagOn (Flags S) MODIFIED_WRITE_DISABLED \<or>
                   ((FirstVisited l = None \<or> FirstVisited l = Some a) \<and>
                    (LazyWritePassCount S AND 0xF) = 0));
         left = fst (scan_body env st l);
         st' = fst (snd (scan_body env st l));
         l' = snd (snd (scan_body env st l))
     in (PagesToWrite S \<ge> l_PagesToWrite l \<and> behind \<longrightarrow>
           l_PagesToWrite l' = 0 \<and> AlreadyMoved l' \<and>
           (AllocateOk env (Allocations st) \<longrightarrow>
              DirtyList st' =
                InsertHeadList_at (RemoveEntryList (DirtyList st) CcLazyWriterCursor) a
                  CcLazyWriterCursor \<and>
              Flink (DirtyList st') a = CcLazyWriterCursor \<and>
              SharedCacheMap l' = Flink (DirtyList st) a \<and>
              Flink (DirtyList st') CcLazyWriterCursor =
                Flink (RemoveEntryList (DirtyList st) CcLazyWriterCursor) a) \<and>
           (\<not> AllocateOk env (Allocations st) \<longrightarrow> left \<and> DirtyList st' = DirtyList st)) \<and>
        (PagesToWrite S \<ge> l_PagesToWrite l \<and> \<not> behind \<longrightarrow>
           DirtyList st' =
             InsertTailList_at (RemoveEntryList (DirtyList st) CcLazyWriterCursor) a
               CcLazyWriterCursor \<and>
           Flink (DirtyList st') CcLazyWriterCursor = a \<and>
           l_PagesToWrite l' = 0 \<and> AlreadyMoved l') \<and>
        (PagesToWrite S < l_PagesToWrite l \<longrightarrow>
           l_PagesToWrite l' = l_PagesToWrite l - PagesToWrite S \<and>
           DirtyList st' = DirtyList st \<and> \<not> AlreadyMoved l'))"
proof -
  let ?c = CcLazyWriterCursor
  let ?a = "SharedCacheMap l"
  let ?r = "RemoveEntryList (DirtyList st) ?c"
  have r: "distinct ?r" "?c \<notin> set ?r" "?a \<in> set ?r"
    using assms(4-6) by (simp_all add: RemoveEntryList_props)
  note f = Flink_InsertHeadList_at [OF r(1) r(3) r(2)] Flink_InsertTailList_at [OF r(1) r(3) r(2)]
  show ?thesis
    using assms(1-3) f
    by (auto simp: scan_body_dispatched scan_body_left adjust_targets_def Let_def update_scm_def
        not_le)
qed


lemma scenario_B_entry:
  "fst (scan_start scenario_B) = scenario_B\<lparr>CcPagesWrittenLastTime := 512, CcPagesYetToWrite := 512\<rparr>"
  "snd (scan_start scenario_B) =
     \<lparr>l_PagesToWrite = 512, SharedCacheMap = 2, FirstVisited = None, LoopsWithLockHeld = 0,
      AlreadyMoved = False, MoveBehindCursor = False, PostTickWorkQueue = []\<rparr>"
  by (simp_all add: scan_start_eq scenario_B_def scenario_A_def final_PagesToWrite_def
      EstimatedDirtyNextInterval_def initial_PagesToWrite_def ForegroundRate_def
      LAZY_WRITER_MAX_AGE_TARGET_def Flink_def CcLazyWriterCursor_def)

lemma scenario_B_stream:
  "Scm (fst (scan_start scenario_B)) 2 = stream_B"
  "CcCapturedSystemSize (fst (scan_start scenario_B)) = MmLargeSystem"
  "DirtyList (fst (scan_start scenario_B)) = [CcLazyWriterCursor, 2, 3]"
  "Allocations (fst (scan_start scenario_B)) = 0"
  by (simp_all add: scenario_B_entry(1)) (simp_all add: scenario_B_def scenario_A_def)

lemma scenario_B_condition:
  "dispatch_condition env MmLargeSystem 512 2 stream_B"
  by (simp add: dispatch_condition_def stream_B_def FlagOn_def MODIFIED_WRITE_DISABLED_def
      WRITE_QUEUED_def IS_CURSOR_def WAITING_FOR_TEARDOWN_def FO_TEMPORARY_FILE_def
      MAX_WRITE_BEHIND_def PAGE_SIZE_def)

lemma scenario_B_S:
  "set_PagesToWrite MmLargeSystem (snd (scan_condition env MmLargeSystem 512 2 stream_B)) =
     stream_B\<lparr>LazyWritePassCount := 1, PagesToWrite := 512\<rparr>"
  by (simp add: set_PagesToWrite_def scan_condition_def stream_B_def FlagOn_def Let_def
      MODIFIED_WRITE_DISABLED_def
      WRITE_QUEUED_def IS_CURSOR_def WAITING_FOR_TEARDOWN_def FO_TEMPORARY_FILE_def
      MAX_WRITE_BEHIND_def PAGE_SIZE_def)

lemma stream_B_flags:
  "FlagOn (Flags stream_B) MODIFIED_WRITE_DISABLED"
  "PagesToWrite (stream_B\<lparr>LazyWritePassCount := 1, PagesToWrite := 512\<rparr>) = 512"
  "Flags (stream_B\<lparr>LazyWritePassCount := 1, PagesToWrite := 512\<rparr>) = Flags stream_B"
  by (simp_all add: stream_B_def FlagOn_def MODIFIED_WRITE_DISABLED_def)

theorem cursor_movement_witness:
  "DirtyList (fst (snd (scan_body quiet_env (fst (scan_start scenario_B)) (snd (scan_start scenario_B)))))
     = [2, CcLazyWriterCursor, 3] \<and>
   Flink (DirtyList (fst (snd (scan_body quiet_env (fst (scan_start scenario_B))
      (snd (scan_start scenario_B)))))) 2 = CcLazyWriterCursor \<and>
   SharedCacheMap (snd (snd (scan_body quiet_env (fst (scan_start scenario_B))
      (snd (scan_start scenario_B))))) = 3 \<and>
   l_PagesToWrite (snd (snd (scan_body quiet_env (fst (scan_start scenario_B))
      (snd (scan_start scenario_B))))) = 0 \<and>
   AlreadyMoved (snd (snd (scan_body quiet_env (fst (scan_start scenario_B))
      (snd (scan_start scenario_B)))))"
proof -
  let ?st = "fst (scan_start scenario_B)" and ?l = "snd (scan_start scenario_B)"
  have h1: "dispatch_condition quiet_env (CcCapturedSystemSize ?st) (l_PagesToWrite ?l)
      (SharedCacheMap ?l) (Scm ?st (SharedCacheMap ?l))"
    by (simp add: scenario_B_stream scenario_B_entry(2) scenario_B_condition)
  have h2: "\<not> AlreadyMoved ?l" "\<not> MoveBehindCursor ?l" by (simp_all add: scenario_B_entry(2))
  have h3: "distinct (DirtyList ?st)" "SharedCacheMap ?l \<in> set (DirtyList ?st)"
    "SharedCacheMap ?l \<noteq> CcLazyWriterCursor"
    by (simp_all add: scenario_B_stream scenario_B_entry(2) CcLazyWriterCursor_def)
  have ok: "AllocateOk quiet_env 0" by (simp add: quiet_env_def)
  show ?thesis
    using cursor_movement [OF h1 h2 h3] ok
    by (simp add: Let_def scenario_B_stream scenario_B_entry(2) scenario_B_S stream_B_flags
        RemoveEntryList_def CcLazyWriterCursor_def Flink_def)
qed

text \<open>In scenario B the metadata stream exhausts the budget of 512 pages; when its work
  entry cannot be allocated, the cursor is not behind it after the turn.\<close>

theorem cursor_stays_on_failed_allocation_counterexample:
  "dispatch_condition failing_env MmLargeSystem 512 2 (Scm (fst (scan_start scenario_B)) 2) \<and>
   FlagOn (Flags (Scm (fst (scan_start scenario_B)) 2)) MODIFIED_WRITE_DISABLED \<and>
   \<not> AlreadyMoved (snd (scan_start scenario_B)) \<and>
   PagesToWrite (Scm (fst (snd (scan_body failing_env (fst (scan_start scenario_B))
      (snd (scan_start scenario_B))))) 2) = 512 \<and>
   l_PagesToWrite (snd (scan_start scenario_B)) = 512 \<and>
   DirtyList (fst (snd (scan_body failing_env (fst (scan_start scenario_B))
      (snd (scan_start scenario_B))))) = [CcLazyWriterCursor, 2, 3] \<and>
   Flink (DirtyList (fst (snd (scan_body failing_env (fst (scan_start scenario_B))
      (snd (scan_start scenario_B)))))) 2 \<noteq> CcLazyWriterCursor"
proof -
  let ?st = "fst (scan_start scenario_B)" and ?l = "snd (scan_start scenario_B)"
  have h1: "dispatch_condition failing_env (CcCapturedSystemSize ?st) (l_PagesToWrite ?l)
      (SharedCacheMap ?l) (Scm ?st (SharedCacheMap ?l))"
    by (simp add: scenario_B_stream scenario_B_entry(2) scenario_B_condition)
  have no: "\<not> AllocateOk failing_env 0" by (simp add: failing_env_def)
  have p: "PagesToWrite (Scm (fst (snd (scan_body failing_env ?st ?l))) 2) = 512"
    using h1 no
    by (simp add: scan_body_def Let_def split_def scan_condition_eq scenario_B_stream
        scenario_B_entry(2) scenario_B_S)
  show ?thesis
    using scan_body_dispatched(1) [OF h1] h1 no p
    by (simp add: Let_def scenario_B_stream scenario_B_entry(2) scenario_B_S stream_B_flags
        CcLazyWriterCursor_def Flink_def adjust_targets_def update_scm_def)
qed


lemma scenario_A_entry:
  "fst (scan_start scenario_A_locked) =
     scenario_A_locked\<lparr>CcPagesWrittenLastTime := 12, CcPagesYetToWrite := 12\<rparr>"
  "snd (scan_start scenario_A_locked) =
     \<lparr>l_PagesToWrite = 12, SharedCacheMap = 2, FirstVisited = None, LoopsWithLockHeld = 0,
      AlreadyMoved = False, MoveBehindCursor = False, PostTickWorkQueue = []\<rparr>"
  by (simp_all add: scan_start_eq scenario_A_locked_def CcAcquireMasterLock_def scenario_A_def
      final_PagesToWrite_def
      EstimatedDirtyNextInterval_def initial_PagesToWrite_def ForegroundRate_def
      LAZY_WRITER_MAX_AGE_TARGET_def Flink_def CcLazyWriterCursor_def)

lemma scenario_A_stream:
  "Scm (fst (scan_start scenario_A_locked)) 2 = stream_A"
  "CcCapturedSystemSize (fst (scan_start scenario_A_locked)) = MmLargeSystem"
  "DirtyList (fst (scan_start scenario_A_locked)) = [CcLazyWriterCursor, 2, 3]"
  "Allocations (fst (scan_start scenario_A_locked)) = 0"
  "ExpressQueue (fst (scan_start scenario_A_locked)) = []"
  "RegularQueue (fst (scan_start scenario_A_locked)) = []"
  by (simp_all add: scenario_A_entry(1))
     (simp_all add: scenario_A_locked_def CcAcquireMasterLock_def scenario_A_def)

lemma scenario_A_condition:
  "dispatch_condition env MmLargeSystem 12 2 stream_A"
  by (simp add: dispatch_condition_def stream_A_def FlagOn_def MODIFIED_WRITE_DISABLED_def
      WRITE_QUEUED_def IS_CURSOR_def WAITING_FOR_TEARDOWN_def FO_TEMPORARY_FILE_def
      MAX_WRITE_BEHIND_def PAGE_SIZE_def)

lemma stream_A_flags:
  "\<not> FlagOn (Flags stream_A) WAITING_FOR_TEARDOWN"
  "DirtyPages stream_A = 100"
  by (simp_all add: stream_A_def FlagOn_def)

theorem dispatch_iff_condition_witness:
  "dispatch_condition quiet_env MmLargeSystem 12 2 stream_A \<and>
   fst (scan_condition quiet_env MmLargeSystem 12 2 stream_A) \<and>
   (fst (scan_body quiet_env (fst (scan_start scenario_A_locked)) (snd (scan_start scenario_A_locked))) \<or>
    ExpressQueue (fst (snd (scan_body quiet_env (fst (scan_start scenario_A_locked))
       (snd (scan_start scenario_A_locked))))) \<noteq> [] \<or>
    RegularQueue (fst (snd (scan_body quiet_env (fst (scan_start scenario_A_locked))
       (snd (scan_start scenario_A_locked))))) \<noteq> [])"
  using dispatch_iff_condition [of quiet_env "fst (scan_start scenario_A_locked)"
      "snd (scan_start scenario_A_locked)"]
  by (simp add: scenario_A_stream scenario_A_entry(2) scenario_A_condition)

lemma scenario_A_held:
  "MasterLockHeld (fst (scan_start scenario_A_locked))"
  "WindowViews (fst (scan_start scenario_A_locked)) = []"
  "Windows (fst (scan_start scenario_A_locked)) = 0"
  "MasterLockHeld scenario_A_locked"
  "WindowViews scenario_A_locked = []"
  "Windows scenario_A_locked = 0"
  "RegularQueue scenario_A_locked = []"
  "ExpressQueue scenario_A_locked = []"
  by (simp_all add: scenario_A_entry(1))
     (simp_all add: scenario_A_locked_def CcAcquireMasterLock_def scenario_A_def)

theorem dispatch_pins_and_unpins_witness:
  "dispatch_condition quiet_env MmLargeSystem 12 2 stream_A \<and>
   MasterLockHeld (fst (scan_start scenario_A_locked)) \<and>
   AllocateOk quiet_env 0 \<and>
   map fst (WindowViews (fst (snd (scan_body quiet_env (fst (scan_start scenario_A_locked))
       (snd (scan_start scenario_A_locked)))))) = [False] \<and>
   FlagOn (Flags (snd (hd (WindowViews (fst (snd (scan_body quiet_env
       (fst (scan_start scenario_A_locked)) (snd (scan_start scenario_A_locked))))))) 2))
     WRITE_QUEUED \<and>
   DirtyPages (snd (hd (WindowViews (fst (snd (scan_body quiet_env
       (fst (scan_start scenario_A_locked)) (snd (scan_start scenario_A_locked))))))) 2) = 101 \<and>
   \<not> fst (scan_body quiet_env (fst (scan_start scenario_A_locked)) (snd (scan_start scenario_A_locked))) \<and>
   MasterLockHeld (fst (snd (scan_body quiet_env (fst (scan_start scenario_A_locked))
       (snd (scan_start scenario_A_locked))))) \<and>
   FlagOn (Flags (Scm (fst (snd (scan_body quiet_env (fst (scan_start scenario_A_locked))
       (snd (scan_start scenario_A_locked))))) 2)) WRITE_QUEUED \<and>
   DirtyPages (Scm (fst (snd (scan_body quiet_env (fst (scan_start scenario_A_locked))
       (snd (scan_start scenario_A_locked))))) 2) = 100 \<and>
   RegularQueue (fst (snd (scan_body quiet_env (fst (scan_start scenario_A_locked))
       (snd (scan_start scenario_A_locked))))) = [WriteBehind 2] \<and>
   ExpressQueue (fst (snd (scan_body quiet_env (fst (scan_start scenario_A_locked))
       (snd (scan_start scenario_A_locked))))) = []"
proof -
  let ?st = "fst (scan_start scenario_A_locked)" and ?l = "snd (scan_start scenario_A_locked)"
  have h1: "dispatch_condition quiet_env (CcCapturedSystemSize ?st) (l_PagesToWrite ?l)
      (SharedCacheMap ?l) (Scm ?st (SharedCacheMap ?l))"
    by (simp add: scenario_A_stream scenario_A_entry(2) scenario_A_condition)
  have ok: "AllocateOk quiet_env 0" by (simp add: quiet_env_def)
  from dispatch_pins_and_unpins [OF h1 scenario_A_held(1)]
  obtain V where v: "WindowViews (fst (snd (scan_body quiet_env ?st ?l))) = [(False, V)]"
      "FlagOn (Flags (V 2)) WRITE_QUEUED" "DirtyPages (V 2) = 101"
    by (auto simp: scenario_A_stream scenario_A_entry(2) scenario_A_held stream_A_flags)
  show ?thesis
    using dispatch_pins_and_unpins [OF h1 scenario_A_held(1)] ok v
    by (simp add: scenario_A_stream scenario_A_entry(2) scenario_A_condition stream_A_flags
        scenario_A_held)
qed

theorem quiescent_scan_witness:
  "CcLazyWriteScan quiet_env (scenario_A\<lparr>CcTotalDirtyPages := 0\<rparr>) =
     Some (scenario_A\<lparr>CcTotalDirtyPages := 0, ScanActive := False\<rparr>) \<and>
   CcLazyWriteScan quiet_env (scenario_A\<lparr>CcTotalDirtyPages := 0, CcDeferredWrites := [7]\<rparr>) =
     Some (scenario_A\<lparr>CcTotalDirtyPages := 0, CcDeferredWrites := [7],
             PostDeferredWritesCalls := 1, ScanTimer := Some CcIdleDelay\<rparr>)"
proof -
  have a: "CcTotalDirtyPages (scenario_A\<lparr>CcTotalDirtyPages := 0\<rparr>) = 0"
    "\<not> OtherWork (scenario_A\<lparr>CcTotalDirtyPages := 0\<rparr>)"
    "CcDeferredWrites (scenario_A\<lparr>CcTotalDirtyPages := 0\<rparr>) = []"
    by (simp_all add: scenario_A_def)
  have b: "CcTotalDirtyPages (scenario_A\<lparr>CcTotalDirtyPages := 0, CcDeferredWrites := [7]\<rparr>) = 0"
    "\<not> OtherWork (scenario_A\<lparr>CcTotalDirtyPages := 0, CcDeferredWrites := [7]\<rparr>)"
    "CcDeferredWrites (scenario_A\<lparr>CcTotalDirtyPages := 0, CcDeferredWrites := [7]\<rparr>) \<noteq> []"
    "ScanActive (scenario_A\<lparr>CcTotalDirtyPages := 0, CcDeferredWrites := [7]\<rparr>)"
    by (simp_all add: scenario_A_def)
  have c: "\<not> MasterLockHeld scenario_A" "PostDeferredWritesCalls scenario_A = 0"
    "ScanActive scenario_A"
    by (simp_all add: scenario_A_def)
  from quiescent_scan [OF a(1,2), of quiet_env] a(3) c
  have 1: "CcLazyWriteScan quiet_env (scenario_A\<lparr>CcTotalDirtyPages := 0\<rparr>) =
     Some (scenario_A\<lparr>CcTotalDirtyPages := 0, ScanActive := False\<rparr>)"
    by (simp add: scenario_A_def)
  from quiescent_scan [OF b(1,2), of quiet_env] b(3,4) c
  have 2: "CcLazyWriteScan quiet_env (scenario_A\<lparr>CcTotalDirtyPages := 0, CcDeferredWrites := [7]\<rparr>) =
     Some (scenario_A\<lparr>CcTotalDirtyPages := 0, CcDeferredWrites := [7],
             PostDeferredWritesCalls := 1, ScanTimer := Some CcIdleDelay\<rparr>)"
    by (simp add: scenario_A_def CcPostDeferredWrites_def CcScheduleLazyWriteScan_def
        schedule_stmts_def)
  from 1 2 show ?thesis by simp
qed

subsection \<open>The worker\<close>

lemma WriteBehinds_frames [simp]:
  "WriteBehinds (other_threads env st) = WriteBehinds st"
  "WriteBehinds (update_scm a f st) = WriteBehinds st"
  "WriteBehinds (CcPostWorkQueue e q st) = WriteBehinds st"
  "WriteBehinds (scan_pin a st) = WriteBehinds st"
  "WriteBehinds (scan_unpin a st) = WriteBehinds st"
  "WriteBehinds (fst (adjust_targets st l)) = WriteBehinds st"
  "WriteBehinds (fst (scan_advance st l)) = WriteBehinds st"
  "WriteBehinds (fst (scan_post a st l)) = WriteBehinds st"
  "WriteBehinds (fst (scan_courtesy env st l)) = WriteBehinds st"
  "WriteBehinds (snd (CcAllocateWorkQueueEntry env st)) = WriteBehinds st"
  "WriteBehinds (CcScheduleLazyWriteScan b st) = WriteBehinds st"
  "WriteBehinds (CcPostDeferredWrites st) = WriteBehinds st"
  "WriteBehinds (fst (scan_start st)) = WriteBehinds st"
  "WriteBehinds (CcAcquireMasterLock st) = WriteBehinds st"
  "WriteBehinds (CcReleaseMasterLock st) = WriteBehinds st"
  by (simp_all add: other_threads_eq update_scm_def CcPostWorkQueue_def queue_update_def Let_def
      scan_pin_def scan_unpin_def adjust_targets_def scan_advance_def scan_post_def
      scan_courtesy_def CcAcquireMasterLock_def CcReleaseMasterLock_def
      CcScheduleLazyWriteScan_def schedule_stmts_def CcPostDeferredWrites_def scan_start_eq
      split: work_queue.splits)

lemma scan_body_WriteBehinds [simp]:
  "WriteBehinds (fst (snd (scan_body env st l))) = WriteBehinds st"
  by (simp add: scan_body_def Let_def split_def)

lemmas scan_loop_induct = scan_loop.raw_induct [rotated 1, consumes 1, case_names step]

lemmas worker_loop_induct = worker_loop.raw_induct [rotated 1, consumes 1, case_names step]

lemma scan_loop_WriteBehinds:
  assumes "scan_loop env st l = Some y"
  shows "WriteBehinds (fst y) = WriteBehinds st"
  using assms
proof (induction env st l y rule: scan_loop_induct)
  case (step f env st l y)
  show ?case
  proof (cases "scan_continues l")
    case False
    with step(2) show ?thesis by auto
  next
    case True
    obtain left st' l' where b: "scan_body env st l = (left, st', l')"
      by (cases "scan_body env st l") auto
    have w: "WriteBehinds st' = WriteBehinds st"
      using scan_body_WriteBehinds [of env st l] b by simp
    show ?thesis
    proof (cases left)
      case True
      with step(2) \<open>scan_continues l\<close> b w show ?thesis by auto
    next
      case False
      with step(2) \<open>scan_continues l\<close> b have "f env st' l' = Some y" by simp
      from step(1) [OF this] w show ?thesis by simp
    qed
  qed
qed

lemma queue_post_tick_WriteBehinds [simp]:
  "WriteBehinds (queue_post_tick P st) = WriteBehinds st"
  by (induction P arbitrary: st) simp_all

lemma CcLazyWriteScan_WriteBehinds:
  assumes "CcLazyWriteScan env st = Some st'"
  shows "WriteBehinds st' = WriteBehinds st"
proof (cases "CcTotalDirtyPages st = 0 \<and> \<not> OtherWork st")
  case True
  with assms show ?thesis
    by (auto simp: quiescent_start CcPostDeferredWrites_def split: if_splits)
next
  case False
  let ?st1 = "fst (scan_start (CcAcquireMasterLock st))"
  let ?l1 = "snd (scan_start (CcAcquireMasterLock st))"
  from False assms obtain y where y: "scan_loop env ?st1 ?l1 = Some y"
    and st': "st' = scan_finish (fst y) (snd y)"
    by (auto simp: CcLazyWriteScan_def Let_def split_def CcAcquireMasterLock_def
        split: option.splits)
  from scan_loop_WriteBehinds [OF y] show ?thesis
    by (simp add: st' scan_finish_def Let_def)
qed

lemma worker_prepare_frames [simp]:
  "WriteBehinds (fst (worker_prepare st w)) = WriteBehinds st"
  "Signalled (fst (worker_prepare st w)) = Signalled st"
  "CcNumberActiveWorkerThreads (fst (worker_prepare st w)) = CcNumberActiveWorkerThreads st"
  "RescanOk (snd (worker_prepare st w)) = RescanOk w"
  by (simp_all add: worker_prepare_def Let_def split_def queue_update_def
      split: work_queue.splits option.splits)

lemma worker_take_frames [simp]:
  "WriteBehinds (fst (snd (worker_take q st w))) = WriteBehinds st"
  "Signalled (fst (snd (worker_take q st w))) = Signalled st"
  "CcNumberActiveWorkerThreads (fst (snd (worker_take q st w))) = CcNumberActiveWorkerThreads st"
  "RescanOk (snd (snd (worker_take q st w))) = RescanOk w"
  by (simp_all add: worker_take_def Let_def queue_update_def split: work_queue.splits)

lemma worker_select_frames [simp]:
  "WriteBehinds (fst (snd (worker_select st w))) = WriteBehinds st"
  "Signalled (fst (snd (worker_select st w))) = Signalled st"
  "CcNumberActiveWorkerThreads (fst (snd (worker_select st w))) = CcNumberActiveWorkerThreads st"
  "RescanOk (snd (snd (worker_select st w))) = RescanOk w"
  by (simp_all add: worker_select_def Let_def split_def)

lemma returned_statuses_empty [simp]: "n1 \<le> n0 \<Longrightarrow> returned_statuses env n0 n1 = []"
  by (simp add: returned_statuses_def)

lemma returned_statuses_step:
  "n0 < n1 \<Longrightarrow>
   returned_statuses env n0 n1 =
     (case WriteBehindResult env n0 of Returned s i \<Rightarrow> [s] | Raised \<Rightarrow> []) @
     returned_statuses env (Suc n0) n1"
  by (simp add: returned_statuses_def upt_conv_Cons)

lemma worker_dispatch_cases:
  assumes "worker_dispatch env st w = Some (st2, w2)"
  shows "(WriteBehinds st2 = WriteBehinds st \<and> RescanOk w2 = RescanOk w) \<or>
         (WriteBehinds st2 = Suc (WriteBehinds st) \<and>
          (case WriteBehindResult env (WriteBehinds st) of
             Returned s i \<Rightarrow> RescanOk w2 = NT_SUCCESS s
           | Raised \<Rightarrow> RescanOk w2 = RescanOk w))"
  using assms
  by (auto simp: worker_dispatch_def split: option.splits WORK_QUEUE_ENTRY.splits
      write_behind_result.splits dest: CcLazyWriteScan_WriteBehinds)

lemma worker_loop_RescanOk:
  assumes "worker_loop env st w = Some y"
  shows "WriteBehinds st \<le> WriteBehinds (fst y) \<and>
         RescanOk (snd y) =
           (if returned_statuses env (WriteBehinds st) (WriteBehinds (fst y)) = []
            then RescanOk w
            else NT_SUCCESS (last (returned_statuses env (WriteBehinds st) (WriteBehinds (fst y)))))"
  using assms
proof (induction env st w y rule: worker_loop_induct)
  case (step f env st w y)
  let ?st1 = "fst (snd (worker_select st w))" and ?w1 = "snd (snd (worker_select st w))"
  show ?case
  proof (cases "fst (worker_select st w)")
    case True
    with step(2) have "y = (?st1, ?w1)" by (simp add: split_def)
    then show ?thesis by simp
  next
    case False
    with step(2) obtain st2 w2 where d: "worker_dispatch env ?st1 ?w1 = Some (st2, w2)"
      and r: "f env st2 w2 = Some y"
      by (auto simp: split_def split: option.splits)
    note ih = step(1) [OF r]
    from worker_dispatch_cases [OF d]
    show ?thesis
    proof
      assume "WriteBehinds st2 = WriteBehinds ?st1 \<and> RescanOk w2 = RescanOk ?w1"
      with ih show ?thesis by simp
    next
      assume a: "WriteBehinds st2 = Suc (WriteBehinds ?st1) \<and>
          (case WriteBehindResult env (WriteBehinds ?st1) of
             Returned s i \<Rightarrow> RescanOk w2 = NT_SUCCESS s
           | Raised \<Rightarrow> RescanOk w2 = RescanOk ?w1)"
      with ih have lt: "WriteBehinds st < WriteBehinds (fst y)" by simp
      show ?thesis
        using ih a returned_statuses_step [OF lt, of env]
        by (auto split: write_behind_result.splits)
    qed
  qed
qed

text \<open>
  Claim C9, amended. When the loop of a worker that started with \<open>worker_start\<close> ends,
  \<^verbatim>\<open>RescanOk\<close> says that the most recent write-behind that returned during the run
  returned a success status. So the worker, back on the idle list, calls the scan exactly
  when the deferred-write list is not empty, there are at least 20 dirty pages, and the
  last completed write-behind of the run succeeded.
\<close>

theorem rescan_after_last_write:
  assumes "worker_loop env st worker_start = Some (st1, w1)"
  shows "RescanOk w1 = last_write_succeeded env (WriteBehinds st) (WriteBehinds st1) \<and>
         worker_rescans (worker_idle ExWorkQueueItem st1) w1 =
           (CcDeferredWrites st1 \<noteq> [] \<and> CcTotalDirtyPages st1 \<ge> 20 \<and>
            last_write_succeeded env (WriteBehinds st) (WriteBehinds st1)) \<and>
         CcWorkerThread env ExWorkQueueItem st =
           (if CcDeferredWrites st1 \<noteq> [] \<and> CcTotalDirtyPages st1 \<ge> 20 \<and>
               last_write_succeeded env (WriteBehinds st) (WriteBehinds st1)
            then CcLazyWriteScan env (worker_idle ExWorkQueueItem st1)
            else Some (worker_idle ExWorkQueueItem st1))"
proof -
  have r: "RescanOk w1 = last_write_succeeded env (WriteBehinds st) (WriteBehinds st1)"
    using worker_loop_RescanOk [OF assms]
    by (simp add: last_write_succeeded_def worker_start_def)
  have w: "worker_rescans (worker_idle ExWorkQueueItem st1) w1 =
           (CcDeferredWrites st1 \<noteq> [] \<and> CcTotalDirtyPages st1 \<ge> 20 \<and>
            last_write_succeeded env (WriteBehinds st) (WriteBehinds st1))"
    by (simp add: worker_rescans_def worker_idle_def IsListEmpty_def r)
  show ?thesis
    using r w assms by (simp add: CcWorkerThread_def Let_def)
qed

lemma scenario_W_simps:
  "ExpressQueue scenario_W = []" "RegularQueue scenario_W = [WriteBehind 2, WriteBehind 3]"
  "WriteBehinds scenario_W = 0" "CcDeferredWrites scenario_W = [7]"
  "CcTotalDirtyPages scenario_W = 100" "CcNumberActiveWorkerThreads scenario_W = 1"
  by (simp_all add: scenario_W_def scenario_A_def)

lemma worker_run_mixed:
  "worker_loop mixed_env scenario_W worker_start =
     Some (scenario_W_drained,
           \<lparr>WorkQueue = Some CcRegularWorkQueue, WorkQueueEntry = Some (WriteBehind 3),
            RescanOk = False, DropThrottle = False, IoStatus_Status = 0xC0000001,
            IoStatus_Information = 0, MemoryMaker = False\<rparr>)"
  apply (subst worker_loop.simps)
  apply (simp add: worker_select_def worker_prepare_def worker_take_def worker_dispatch_def worker_start_def
      scenario_W_simps IsListEmpty_def queue_of_def queue_update_def is_EventSet_def Let_def
      CC_REQUEUE_def mixed_env_def quiet_env_def STATUS_SUCCESS_def NT_SUCCESS_def)
  apply (subst worker_loop.simps)
  apply (simp add: worker_select_def worker_prepare_def worker_take_def worker_dispatch_def
      scenario_W_simps IsListEmpty_def queue_of_def queue_update_def is_EventSet_def Let_def
      CC_REQUEUE_def mixed_env_def quiet_env_def STATUS_SUCCESS_def NT_SUCCESS_def)
  apply (subst worker_loop.simps)
  apply (simp add: worker_select_def worker_prepare_def worker_take_def worker_dispatch_def
      scenario_W_simps IsListEmpty_def queue_of_def queue_update_def is_EventSet_def Let_def
      CC_REQUEUE_def scenario_W_drained_def)
  done

lemma Signalled_frames [simp]:
  "Signalled (other_threads env st) = Signalled st"
  "Signalled (update_scm a f st) = Signalled st"
  "Signalled (CcPostWorkQueue e q st) = Signalled st"
  "Signalled (scan_pin a st) = Signalled st"
  "Signalled (scan_unpin a st) = Signalled st"
  "Signalled (fst (adjust_targets st l)) = Signalled st"
  "Signalled (fst (scan_advance st l)) = Signalled st"
  "Signalled (fst (scan_post a st l)) = Signalled st"
  "Signalled (fst (scan_courtesy env st l)) = Signalled st"
  "Signalled (snd (CcAllocateWorkQueueEntry env st)) = Signalled st"
  "Signalled (CcScheduleLazyWriteScan b st) = Signalled st"
  "Signalled (CcPostDeferredWrites st) = Signalled st"
  "Signalled (fst (scan_start st)) = Signalled st"
  "Signalled (CcAcquireMasterLock st) = Signalled st"
  "Signalled (CcReleaseMasterLock st) = Signalled st"
  by (simp_all add: other_threads_eq update_scm_def CcPostWorkQueue_def queue_update_def Let_def
      scan_pin_def scan_unpin_def adjust_targets_def scan_advance_def scan_post_def
      scan_courtesy_def CcAcquireMasterLock_def CcReleaseMasterLock_def
      CcScheduleLazyWriteScan_def schedule_stmts_def CcPostDeferredWrites_def scan_start_eq
      split: work_queue.splits)

lemma scan_body_Signalled [simp]:
  "Signalled (fst (snd (scan_body env st l))) = Signalled st"
  by (simp add: scan_body_def Let_def split_def)


lemma queue_post_tick_Signalled [simp]:
  "Signalled (queue_post_tick P st) = Signalled st"
  by (induction P arbitrary: st) simp_all











lemma worker_run_quiet:
  "worker_loop quiet_env scenario_W worker_start =
     Some (scenario_W_drained,
           \<lparr>WorkQueue = Some CcRegularWorkQueue, WorkQueueEntry = Some (WriteBehind 3),
            RescanOk = True, DropThrottle = False, IoStatus_Status = STATUS_SUCCESS,
            IoStatus_Information = 0, MemoryMaker = False\<rparr>)"
  apply (subst worker_loop.simps)
  apply (simp add: worker_select_def worker_prepare_def worker_take_def worker_dispatch_def
      worker_start_def
      scenario_W_simps IsListEmpty_def queue_of_def queue_update_def is_EventSet_def Let_def
      CC_REQUEUE_def quiet_env_def STATUS_SUCCESS_def NT_SUCCESS_def)
  apply (subst worker_loop.simps)
  apply (simp add: worker_select_def worker_prepare_def worker_take_def worker_dispatch_def
      scenario_W_simps IsListEmpty_def queue_of_def queue_update_def is_EventSet_def Let_def
      CC_REQUEUE_def quiet_env_def STATUS_SUCCESS_def NT_SUCCESS_def)
  apply (subst worker_loop.simps)
  apply (simp add: worker_select_def worker_prepare_def worker_take_def worker_dispatch_def
      scenario_W_simps IsListEmpty_def queue_of_def queue_update_def is_EventSet_def Let_def
      CC_REQUEUE_def scenario_W_drained_def)
  done

lemma scenario_W_drained_simps:
  "WriteBehinds scenario_W_drained = 2" "CcDeferredWrites scenario_W_drained = [7]"
  "CcTotalDirtyPages scenario_W_drained = 100"
  by (simp_all add: scenario_W_drained_def scenario_W_simps)

lemma returned_mixed:
  "returned_statuses mixed_env 0 2 = [STATUS_SUCCESS, 0xC0000001]"
  "returned_statuses quiet_env 0 2 = [STATUS_SUCCESS, STATUS_SUCCESS]"
  by (simp_all add: returned_statuses_def mixed_env_def quiet_env_def upt_conv_Cons)

theorem rescan_after_last_write_witness:
  "worker_loop quiet_env scenario_W worker_start =
     Some (scenario_W_drained,
           \<lparr>WorkQueue = Some CcRegularWorkQueue, WorkQueueEntry = Some (WriteBehind 3),
            RescanOk = True, DropThrottle = False, IoStatus_Status = STATUS_SUCCESS,
            IoStatus_Information = 0, MemoryMaker = False\<rparr>) \<and>
   last_write_succeeded quiet_env 0 2 \<and>
   CcWorkerThread quiet_env 5 scenario_W =
     CcLazyWriteScan quiet_env (worker_idle 5 scenario_W_drained)"
  using rescan_after_last_write [OF worker_run_quiet, of 5]
  by (simp add: worker_run_quiet scenario_W_drained_simps scenario_W_simps
      last_write_succeeded_def returned_mixed STATUS_SUCCESS_def NT_SUCCESS_def)

text \<open>A run whose first write-behind succeeds and whose second fails completed a
  successful write-behind, with a deferred write waiting and 100 dirty pages; yet the
  worker goes idle without the scan: no deferred write is poked, no timer is armed.\<close>

theorem rescan_needs_last_write_counterexample:
  "worker_loop mixed_env scenario_W worker_start =
     Some (scenario_W_drained,
           \<lparr>WorkQueue = Some CcRegularWorkQueue, WorkQueueEntry = Some (WriteBehind 3),
            RescanOk = False, DropThrottle = False, IoStatus_Status = 0xC0000001,
            IoStatus_Information = 0, MemoryMaker = False\<rparr>) \<and>
   CcDeferredWrites scenario_W_drained \<noteq> [] \<and>
   CcTotalDirtyPages scenario_W_drained \<ge> 20 \<and>
   some_write_succeeded mixed_env (WriteBehinds scenario_W) (WriteBehinds scenario_W_drained) \<and>
   CcWorkerThread mixed_env 5 scenario_W = Some (worker_idle 5 scenario_W_drained) \<and>
   PostDeferredWritesCalls (worker_idle 5 scenario_W_drained) = 0 \<and>
   ScanTimer (worker_idle 5 scenario_W_drained) = None"
  by (simp add: worker_run_mixed CcWorkerThread_def Let_def worker_rescans_def
      scenario_W_drained_simps scenario_W_simps some_write_succeeded_def returned_mixed
      STATUS_SUCCESS_def NT_SUCCESS_def)
     (simp add: worker_idle_def scenario_W_drained_def scenario_W_def scenario_A_def)





subsection \<open>The post-tick queue\<close>

text \<open>
  The successor of an entry of the ring, and the position of an entry in a list.
\<close>

lemma Flink_split:
  assumes "distinct (xs @ x # ys)"
  shows "Flink (xs @ x # ys) x = hd (ys @ xs @ [x])"
proof -
  from assms have n: "x \<notin> set xs" by auto
  show ?thesis
  proof (cases ys)
    case Nil
    then show ?thesis using n by (cases xs) (simp_all add: Flink_def)
  next
    case (Cons y zs)
    then show ?thesis using n by (simp add: Flink_def nth_append)
  qed
qed

lemma Flink_rotate:
  assumes "distinct (pre @ post)" and "x \<in> set (pre @ post)"
  shows "Flink (pre @ post) x = Flink (post @ pre) x"
proof (cases "x \<in> set pre")
  case True
  then obtain p1 p2 where p: "pre = p1 @ x # p2" by (auto dest: split_list)
  have a: "Flink ((p1 @ x # p2) @ post) x = hd ((p2 @ post) @ p1 @ [x])"
    using Flink_split [of p1 x "p2 @ post"] assms(1) p by simp
  have b: "Flink (post @ p1 @ x # p2) x = hd (p2 @ (post @ p1) @ [x])"
    using Flink_split [of "post @ p1" x p2] assms(1) p by auto
  from a b show ?thesis by (simp add: p)
next
  case False
  with assms(2) obtain q1 q2 where q: "post = q1 @ x # q2" by (auto dest: split_list)
  have a: "Flink (pre @ q1 @ x # q2) x = hd (q2 @ (pre @ q1) @ [x])"
    using Flink_split [of "pre @ q1" x q2] assms(1) q by simp
  have b: "Flink ((q1 @ x # q2) @ pre) x = hd ((q2 @ pre) @ q1 @ [x])"
    using Flink_split [of q1 x "q2 @ pre"] assms(1) q by auto
  from a b show ?thesis by (simp add: q)
qed

lemma Flink_cursor_or_nodes:
  assumes "distinct r" and "c \<in> set r" and "x \<in> set r" and "x \<noteq> c"
  shows "Flink r x = c \<or> Flink r x = Flink (filter (\<lambda>y. y \<noteq> c) r) x"
proof -
  from assms(2) obtain a b where r: "r = a @ c # b" by (auto dest: split_list)
  with assms(1) have n: "c \<notin> set a" "c \<notin> set b" "distinct (a @ b)" by auto
  then have "filter (\<lambda>y. y \<noteq> c) a = a" "filter (\<lambda>y. y \<noteq> c) b = b"
    by (auto intro!: filter_True)
  then have f: "filter (\<lambda>y. y \<noteq> c) r = a @ b"
    by (simp add: r)
  show ?thesis
  proof (cases "x \<in> set a")
    case True
    then obtain a1 a2 where a: "a = a1 @ x # a2" by (auto dest: split_list)
    have 1: "Flink r x = hd ((a2 @ c # b) @ a1 @ [x])"
      using Flink_split [of a1 x "a2 @ c # b"] assms(1) by (simp add: r a)
    have 2: "Flink (a @ b) x = hd ((a2 @ b) @ a1 @ [x])"
      using Flink_split [of a1 x "a2 @ b"] n(3) by (simp add: a)
    from 1 2 show ?thesis unfolding f by (cases a2) simp_all
  next
    case False
    with assms(3,4) obtain b1 b2 where b: "b = b1 @ x # b2" by (auto simp: r dest: split_list)
    have 1: "Flink r x = hd (b2 @ (a @ c # b1) @ [x])"
      using Flink_split [of "a @ c # b1" x b2] assms(1) by (simp add: r b)
    have 2: "Flink (a @ b) x = hd (b2 @ (a @ b1) @ [x])"
      using Flink_split [of "a @ b1" x b2] n(3) by (simp add: b)
    from 1 2 show ?thesis unfolding f by (cases b2; cases a) simp_all
  qed
qed

lemma index_of_less: "x \<in> set xs \<Longrightarrow> index_of x xs < length xs"
  by (induction xs) auto

lemma nth_index_of: "x \<in> set xs \<Longrightarrow> xs ! index_of x xs = x"
  by (induction xs) auto

lemma index_of_nth: "distinct xs \<Longrightarrow> i < length xs \<Longrightarrow> index_of (xs ! i) xs = i"
proof (induction xs arbitrary: i)
  case Nil
  then show ?case by simp
next
  case (Cons a xs)
  then show ?case by (cases i) (auto simp: nth_Cons')
qed

lemma Flink_index:
  assumes "distinct ord" and "x \<in> set ord"
  shows "Flink ord x \<in> set ord"
    and "index_of (Flink ord x) ord = (index_of x ord + 1) mod length ord"
proof -
  from assms(2) have "length ord > 0" by (cases ord) auto
  then have m: "(index_of x ord + 1) mod length ord < length ord" by simp
  show "Flink ord x \<in> set ord" using assms(2) m by (simp add: Flink_def)
  show "index_of (Flink ord x) ord = (index_of x ord + 1) mod length ord"
    using assms m by (simp add: Flink_def index_of_nth)
qed

lemma ring_ok_removed:
  "ring_ok nodes r \<Longrightarrow> RemoveEntryList r CcLazyWriterCursor = nodes"
  by (simp add: ring_ok_def RemoveEntryList_def removeAll_filter_not_eq) (metis (mono_tags, lifting) filter_cong)

lemma ring_ok_nodes:
  assumes "ring_ok nodes r"
  shows "distinct nodes" and "CcLazyWriterCursor \<notin> set nodes"
    and "set r = insert CcLazyWriterCursor (set nodes)"
  using assms by (auto simp: ring_ok_def)

lemma ring_ok_InsertTailList_at:
  assumes "ring_ok nodes r" and "a \<in> set nodes"
  shows "ring_ok nodes (InsertTailList_at (RemoveEntryList r CcLazyWriterCursor) a CcLazyWriterCursor)"
proof -
  from assms(2) obtain xs ys where s: "nodes = xs @ a # ys" by (auto dest: split_list)
  from ring_ok_nodes [OF assms(1)] s have n: "a \<notin> set xs" "distinct (xs @ a # ys)"
    "CcLazyWriterCursor \<notin> set (xs @ a # ys)" by auto
  then have "filter (\<lambda>x. x \<noteq> CcLazyWriterCursor) (xs @ a # ys) = xs @ a # ys"
    by (intro filter_True) auto
  with n show ?thesis
    unfolding ring_ok_removed [OF assms(1)] s
    by (simp add: InsertTailList_at_split ring_ok_def)
qed

lemma ring_ok_InsertHeadList_at:
  assumes "ring_ok nodes r" and "a \<in> set nodes"
  shows "ring_ok nodes (InsertHeadList_at (RemoveEntryList r CcLazyWriterCursor) a CcLazyWriterCursor)"
proof -
  from assms(2) obtain xs ys where s: "nodes = xs @ a # ys" by (auto dest: split_list)
  from ring_ok_nodes [OF assms(1)] s have n: "a \<notin> set xs" "distinct (xs @ a # ys)"
    "CcLazyWriterCursor \<notin> set (xs @ a # ys)" by auto
  then have "filter (\<lambda>x. x \<noteq> CcLazyWriterCursor) (xs @ a # ys) = xs @ a # ys"
    by (intro filter_True) auto
  with n show ?thesis
    unfolding ring_ok_removed [OF assms(1)] s
    by (simp add: InsertHeadList_at_split ring_ok_def)
qed

lemma adjust_targets_ring:
  assumes "ring_ok nodes (DirtyList st)" and "SharedCacheMap l \<in> set nodes"
  shows "ring_ok nodes (DirtyList (fst (adjust_targets st l)))"
  using assms ring_ok_InsertTailList_at [OF assms]
  by (simp add: adjust_targets_def Let_def)

lemma scan_advance_ring:
  assumes "ring_ok nodes (DirtyList st)" and "SharedCacheMap l \<in> set nodes"
  shows "ring_ok nodes (DirtyList (fst (scan_advance st l)))"
  using assms ring_ok_InsertHeadList_at [OF assms]
  by (simp add: scan_advance_def Let_def)

lemma scan_body_ring:
  assumes "ring_ok nodes (DirtyList st)" and "SharedCacheMap l \<in> set nodes"
  shows "ring_ok nodes (DirtyList (fst (snd (scan_body env st l))))"
    and "\<not> fst (scan_body env st l) \<Longrightarrow>
         \<exists>r. ring_ok nodes r \<and>
             SharedCacheMap (snd (snd (scan_body env st l))) = Flink r (SharedCacheMap l)"
proof -
  let ?a = "SharedCacheMap l"
  let ?l1 = "if FirstVisited l = None then l\<lparr>FirstVisited := Some ?a\<rparr> else l"
  have l1: "SharedCacheMap ?l1 = ?a" by simp
  let ?c = "scan_condition env (CcCapturedSystemSize st) (l_PagesToWrite ?l1) ?a (Scm st ?a)"
  let ?st2 = "update_scm ?a (set_PagesToWrite (CcCapturedSystemSize st))
                (update_scm ?a (\<lambda>_. snd ?c) st)"
  have r2: "ring_ok nodes (DirtyList (fst (adjust_targets ?st2 ?l1)))"
    using adjust_targets_ring [of nodes ?st2 ?l1] assms by simp
  show "ring_ok nodes (DirtyList (fst (snd (scan_body env st l))))"
  proof (cases "fst ?c")
    case True
    then show ?thesis
      using r2 scan_advance_ring [of nodes
          "fst (scan_post ?a (other_threads env (snd (CcAllocateWorkQueueEntry env
             (scan_pin ?a (fst (adjust_targets ?st2 ?l1)))))) (snd (adjust_targets ?st2 ?l1)))"
          "snd (scan_post ?a (other_threads env (snd (CcAllocateWorkQueueEntry env
             (scan_pin ?a (fst (adjust_targets ?st2 ?l1)))))) (snd (adjust_targets ?st2 ?l1)))"]
        assms(2)
      by (simp add: scan_body_def Let_def split_def)
  next
    case False
    then show ?thesis
      using scan_advance_ring [of nodes
          "fst (scan_courtesy env (update_scm ?a (\<lambda>_. snd ?c) st) ?l1)"
          "snd (scan_courtesy env (update_scm ?a (\<lambda>_. snd ?c) st) ?l1)"]
        assms
      by (simp add: scan_body_def Let_def split_def)
  qed
  show "\<exists>r. ring_ok nodes r \<and>
             SharedCacheMap (snd (snd (scan_body env st l))) = Flink r (SharedCacheMap l)"
    if "\<not> fst (scan_body env st l)"
  proof (cases "fst ?c")
    case True
    with that r2 show ?thesis
      by (intro exI [of _ "DirtyList (fst (adjust_targets ?st2 ?l1))"])
         (simp add: scan_body_def Let_def split_def split: if_splits)
  next
    case False
    with that assms(1) show ?thesis
      by (intro exI [of _ "DirtyList st"])
         (simp add: scan_body_def Let_def split_def split: if_splits)
  qed
qed

lemma scan_body_FirstVisited:
  "FirstVisited (snd (snd (scan_body env st l))) =
     (if FirstVisited l = None then Some (SharedCacheMap l) else FirstVisited l)"
  by (simp add: scan_body_def Let_def split_def)

lemma scan_loop_stops: "\<not> scan_continues l \<Longrightarrow> scan_loop env st l = Some (st, l)"
  by (subst scan_loop.simps) simp

lemma scan_loop_step:
  "scan_continues l \<Longrightarrow>
   scan_loop env st l =
     (if fst (scan_body env st l) then Some (snd (scan_body env st l))
      else scan_loop env (fst (snd (scan_body env st l))) (snd (snd (scan_body env st l))))"
  by (subst scan_loop.simps) (simp add: split_def)

lemma scan_loop_total:
  assumes "distinct (pre @ post)"
    and "ring_ok (pre @ post) (DirtyList st)"
    and "SharedCacheMap l = CcLazyWriterCursor \<or>
         (SharedCacheMap l \<in> set (post @ pre) \<and>
          (FirstVisited l = None \<and> SharedCacheMap l = hd (post @ pre) \<or>
           FirstVisited l = Some (hd (post @ pre))))"
  shows "\<exists>y. scan_loop env st l = Some y"
  using assms(2,3)
proof (induction "length (post @ pre) - index_of (SharedCacheMap l) (post @ pre)"
    arbitrary: st l rule: less_induct)
  case less
  let ?ord = "post @ pre" and ?nodes = "pre @ post"
  let ?a = "SharedCacheMap l"
  have dord: "distinct ?ord" using assms(1) by auto
  show ?case
  proof (cases "scan_continues l")
    case False
    then show ?thesis by (simp add: scan_loop_stops)
  next
    case True
    with less.prems(2) have a: "?a \<in> set ?ord" "?a \<noteq> CcLazyWriterCursor"
      and fv: "FirstVisited l = None \<and> ?a = hd ?ord \<or> FirstVisited l = Some (hd ?ord)"
      by (auto simp: scan_continues_def)
    have an: "?a \<in> set ?nodes" using a(1) by auto
    let ?st' = "fst (snd (scan_body env st l))" and ?l' = "snd (snd (scan_body env st l))"
    show ?thesis
    proof (cases "fst (scan_body env st l)")
      case True
      with \<open>scan_continues l\<close> show ?thesis by (simp add: scan_loop_step)
    next
      case False
      note rb = scan_body_ring [OF less.prems(1) an, of env]
      from rb(2) [OF False] obtain r where r: "ring_ok ?nodes r"
        and nx: "SharedCacheMap ?l' = Flink r ?a" by blast
      have fv': "FirstVisited ?l' = Some (hd ?ord)"
        using fv by (auto simp: scan_body_FirstVisited)
      have ar: "?a \<in> set r" using ring_ok_nodes(3) [OF r] an by simp
      have "Flink r ?a = CcLazyWriterCursor \<or> Flink r ?a = Flink ?nodes ?a"
        using Flink_cursor_or_nodes [of r CcLazyWriterCursor ?a] r ar a(2)
        by (simp add: ring_ok_def)
      then have nxt: "SharedCacheMap ?l' = CcLazyWriterCursor \<or> SharedCacheMap ?l' = Flink ?ord ?a"
        using Flink_rotate [OF assms(1) an] nx by simp
      have "\<exists>y. scan_loop env ?st' ?l' = Some y"
      proof (cases "scan_continues ?l'")
        case False
        then show ?thesis by (simp add: scan_loop_stops)
      next
        case True
        with nxt fv' have n1: "SharedCacheMap ?l' = Flink ?ord ?a"
          and n2: "SharedCacheMap ?l' \<noteq> hd ?ord"
          by (auto simp: scan_continues_def)
        note fi = Flink_index [OF dord a(1)]
        have i: "index_of ?a ?ord < length ?ord" using a(1) by (rule index_of_less)
        have "(index_of ?a ?ord + 1) mod length ?ord \<noteq> 0"
        proof
          assume z: "(index_of ?a ?ord + 1) mod length ?ord = 0"
          have "?ord \<noteq> []" using a(1) by auto
          then have "hd ?ord = ?ord ! 0" by (simp add: hd_conv_nth)
          moreover have "Flink ?ord ?a = ?ord ! 0"
            using a(1) z by (simp add: Flink_def)
          ultimately show False using n1 n2 by simp
        qed
        with i have "(index_of ?a ?ord + 1) mod length ?ord = index_of ?a ?ord + 1"
          by (metis Suc_eq_plus1 Suc_lessI mod_less mod_self)
        with fi(2) n1 i have m: "length ?ord - index_of (SharedCacheMap ?l') ?ord
            < length ?ord - index_of ?a ?ord" by simp
        have p: "SharedCacheMap ?l' = CcLazyWriterCursor \<or>
           (SharedCacheMap ?l' \<in> set ?ord \<and>
            (FirstVisited ?l' = None \<and> SharedCacheMap ?l' = hd ?ord \<or>
             FirstVisited ?l' = Some (hd ?ord)))"
          using fi(1) n1 fv' by simp
        from less.hyps [OF m rb(1) p] show ?thesis .
      qed
      with False \<open>scan_continues l\<close> show ?thesis by (simp add: scan_loop_step)
    qed
  qed
qed

lemma scan_loop_invariant:
  assumes "scan_loop env st l = Some y"
    and "I env st l"
    and "\<And>env st l. I env st l \<Longrightarrow> scan_continues l \<Longrightarrow>
           I env (fst (snd (scan_body env st l))) (snd (snd (scan_body env st l)))"
  shows "I env (fst y) (snd y)"
  using assms(1,2)
proof (induction env st l y rule: scan_loop_induct)
  case (step f env st l y)
  show ?case
  proof (cases "scan_continues l")
    case False
    with step(2,3) show ?thesis by auto
  next
    case True
    note b = assms(3) [OF step(3) True]
    show ?thesis
    proof (cases "fst (scan_body env st l)")
      case True
      with step(2) \<open>scan_continues l\<close> b show ?thesis by (auto simp: split_def)
    next
      case False
      with step(2) \<open>scan_continues l\<close>
      have "f env (fst (snd (scan_body env st l))) (snd (snd (scan_body env st l))) = Some y"
        by (simp add: split_def)
      from step(1) [OF this b] show ?thesis .
    qed
  qed
qed

lemma scan_body_MasterLockHeld:
  "MasterLockHeld st \<Longrightarrow> MasterLockHeld (fst (snd (scan_body env st l)))"
  by (simp add: scan_body_def Let_def split_def scan_courtesy_def)

lemma scan_body_PostTickWorkQueue [simp]:
  "PostTickWorkQueue (snd (snd (scan_body env st l))) = PostTickWorkQueue l"
  by (simp add: scan_body_def Let_def split_def)

lemma scan_courtesy_window [simp]:
  "Windows (fst (scan_courtesy env st l)) =
     (if LoopsWithLockHeld l + 1 \<ge> 20 \<and>
         \<not> FlagOn (Flags (Scm st (SharedCacheMap l))) (WRITE_QUEUED OR IS_CURSOR)
      then Suc (Windows st) else Windows st)"
  "CcPostTickWorkQueue (fst (scan_courtesy env st l)) =
     (if LoopsWithLockHeld l + 1 \<ge> 20 \<and>
         \<not> FlagOn (Flags (Scm st (SharedCacheMap l))) (WRITE_QUEUED OR IS_CURSOR)
      then CcPostTickWorkQueue st @ map EventSet (Arrivals env (Windows st))
      else CcPostTickWorkQueue st)"
  by (simp_all add: scan_courtesy_def Let_def)

lemma scan_body_window:
  "(Windows (fst (snd (scan_body env st l))) = Windows st \<and>
    CcPostTickWorkQueue (fst (snd (scan_body env st l))) = CcPostTickWorkQueue st) \<or>
   (Windows (fst (snd (scan_body env st l))) = Suc (Windows st) \<and>
    CcPostTickWorkQueue (fst (snd (scan_body env st l))) =
      CcPostTickWorkQueue st @ map EventSet (Arrivals env (Windows st)))"
  by (simp add: scan_body_def Let_def split_def)

lemma tick_inv_body:
  assumes "tick_inv R0 P W0 env st l"
  shows "tick_inv R0 P W0 env (fst (snd (scan_body env st l))) (snd (snd (scan_body env st l)))"
proof -
  from assms obtain ys where ys: "RegularQueue st = R0 @ ys" "\<forall>e \<in> set ys. \<exists>a. e = WriteBehind a"
    by (auto simp: tick_inv_def)
  have q: "\<exists>zs. RegularQueue (fst (snd (scan_body env st l))) = R0 @ zs \<and>
      (\<forall>e \<in> set zs. \<exists>a. e = WriteBehind a)"
  proof (cases "RegularQueue (fst (snd (scan_body env st l))) = RegularQueue st")
    case True
    with ys show ?thesis by auto
  next
    case False
    then have "RegularQueue (fst (snd (scan_body env st l))) =
        RegularQueue st @ [WriteBehind (SharedCacheMap l)]"
      by (simp add: scan_body_RegularQueue split: if_splits)
    with ys show ?thesis
      by (intro exI [of _ "ys @ [WriteBehind (SharedCacheMap l)]"]) auto
  qed
  from scan_body_window [of env st l] assms
  have w: "W0 \<le> Windows (fst (snd (scan_body env st l))) \<and>
      CcPostTickWorkQueue (fst (snd (scan_body env st l))) =
        map EventSet (concat (map (Arrivals env) [W0..<Windows (fst (snd (scan_body env st l)))]))"
    by (auto simp: tick_inv_def)
  from assms q w show ?thesis
    by (simp add: tick_inv_def scan_body_MasterLockHeld)
qed

lemma queue_post_tick_fields [simp]:
  "RegularQueue (queue_post_tick P st) = RegularQueue st @ P"
  "CcPostTickWorkQueue (queue_post_tick P st) = CcPostTickWorkQueue st"
  "Windows (queue_post_tick P st) = Windows st"
  "MasterLockHeld (queue_post_tick P st) = MasterLockHeld st"
  "CcDeferredWrites (queue_post_tick P st) = CcDeferredWrites st"
  by (induction P arbitrary: st)
     (simp_all add: CcPostWorkQueue_def queue_update_def Let_def InsertTailList_def)

lemma scan_start_drained:
  "fst (scan_start st) = snd (scan_budget (st\<lparr>CcPostTickWorkQueue := []\<rparr>))"
  "PostTickWorkQueue (snd (scan_start st)) = CcPostTickWorkQueue st"
  "CcPostTickWorkQueue (fst (scan_start st)) = []"
  by (simp_all add: scan_start_def pull_post_tick_eq split_def Let_def scan_budget_def)

lemma scan_start_fields [simp]:
  "DirtyList (fst (scan_start st)) = DirtyList st"
  "RegularQueue (fst (scan_start st)) = RegularQueue st"
  "Windows (fst (scan_start st)) = Windows st"
  "MasterLockHeld (fst (scan_start st)) = MasterLockHeld st"
  "SharedCacheMap (snd (scan_start st)) = Flink (DirtyList st) CcLazyWriterCursor"
  "FirstVisited (snd (scan_start st)) = None"
  by (simp_all add: scan_start_eq)

lemma busy_start:
  "\<not> (CcTotalDirtyPages st = 0 \<and> \<not> OtherWork st) \<Longrightarrow>
   CcLazyWriteScan env st =
     (case scan_loop env (fst (scan_start (CcAcquireMasterLock st)))
             (snd (scan_start (CcAcquireMasterLock st))) of
        None \<Rightarrow> None
      | Some y \<Rightarrow> Some (scan_finish (fst y) (snd y)))"
  by (auto simp: CcLazyWriteScan_def Let_def split_def CcAcquireMasterLock_def
      split: option.splits)

lemma hd_snoc: "hd (xs @ [c]) = (if xs = [] then c else hd xs)"
  by (cases xs) simp_all

text \<open>
  Claim C6. A tick that passes the quiescence test, on a dirty list that is a well-formed ring
  holding the cursor, returns, whatever the environment does (so also when the allocation of a
  work entry fails and the loop is left by \<open>break\<close>). The entries of
  \<open>CcPostTickWorkQueue\<close> at the start of the tick are moved to the local list
  before the budget is computed: the budget is computed on the state whose post-tick queue is
  empty, and the local list is the queue as it was. There is a state \<open>m\<close> of the
  tick in which the master lock is still held and the regular queue is the queue of the start,
  then the write-behind entries of this tick, then the drained entries in their order; the tick
  ends by releasing the lock from \<open>m\<close> for the last time, which leaves the regular
  queue as it is. The post-tick queue at the end holds exactly the entries queued by other
  threads in the windows of this tick: they are left for a later tick.
\<close>

theorem post_tick_entries_reach_regular_queue:
  assumes "\<not> (CcTotalDirtyPages st = 0 \<and> \<not> OtherWork st)"
    and "distinct (DirtyList st)" and "CcLazyWriterCursor \<in> set (DirtyList st)"
  shows "\<exists>st' m ys.
     CcLazyWriteScan env st = Some st' \<and>
     fst (scan_start (CcAcquireMasterLock st)) =
       snd (scan_budget (CcAcquireMasterLock st\<lparr>CcPostTickWorkQueue := []\<rparr>)) \<and>
     PostTickWorkQueue (snd (scan_start (CcAcquireMasterLock st))) = CcPostTickWorkQueue st \<and>
     MasterLockHeld m \<and>
     RegularQueue m = RegularQueue st @ ys @ CcPostTickWorkQueue st \<and>
     (\<forall>e \<in> set ys. \<exists>a. e = WriteBehind a) \<and>
     st' = CcScheduleLazyWriteScan False
             (if \<not> IsListEmpty (CcDeferredWrites m)
              then CcPostDeferredWrites (CcReleaseMasterLock m)
              else CcReleaseMasterLock m) \<and>
     RegularQueue st' = RegularQueue m \<and>
     \<not> MasterLockHeld st' \<and>
     CcPostTickWorkQueue st' =
       map EventSet (concat (map (Arrivals env) [Windows st..<Windows st']))"
proof -
  let ?c = CcLazyWriterCursor
  let ?st0 = "CcAcquireMasterLock st"
  let ?st1 = "fst (scan_start ?st0)" and ?l1 = "snd (scan_start ?st0)"
  let ?P = "CcPostTickWorkQueue st"
  have st0: "DirtyList ?st0 = DirtyList st" "CcPostTickWorkQueue ?st0 = ?P"
    "RegularQueue ?st0 = RegularQueue st" "Windows ?st0 = Windows st" "MasterLockHeld ?st0"
    by (simp_all add: CcAcquireMasterLock_def)
  from assms(3) obtain pre post where r: "DirtyList st = pre @ ?c # post"
    by (auto dest: split_list)
  with assms(2) have n: "distinct (pre @ post)" "?c \<notin> set pre" "?c \<notin> set post" by auto
  then have "filter (\<lambda>x. x \<noteq> ?c) pre = pre" "filter (\<lambda>x. x \<noteq> ?c) post = post"
    by (auto intro!: filter_True)
  with assms(2,3) have ro: "ring_ok (pre @ post) (DirtyList ?st1)"
    by (simp add: ring_ok_def st0 r)
  have "Flink (DirtyList st) ?c = hd ((post @ pre) @ [?c])"
    unfolding r using Flink_split [of pre ?c post] assms(2) r by simp
  then have "Flink (DirtyList st) ?c = (if post @ pre = [] then ?c else hd (post @ pre))"
    by (simp only: hd_snoc)
  then have start: "SharedCacheMap ?l1 = ?c \<or>
      (SharedCacheMap ?l1 \<in> set (post @ pre) \<and>
       (FirstVisited ?l1 = None \<and> SharedCacheMap ?l1 = hd (post @ pre) \<or>
        FirstVisited ?l1 = Some (hd (post @ pre))))"
    using hd_in_set [of "post @ pre"] by (simp add: st0 del: hd_in_set)
  from scan_loop_total [OF n(1) ro start, of env]
  obtain y where y: "scan_loop env ?st1 ?l1 = Some y" by blast
  have i0: "tick_inv (RegularQueue st) ?P (Windows st) env ?st1 ?l1"
    by (simp add: tick_inv_def st0 scan_start_drained(2,3))
  have "tick_inv (RegularQueue st) ?P (Windows st) env (fst y) (snd y)"
    by (rule scan_loop_invariant
          [where I = "tick_inv (RegularQueue st) (CcPostTickWorkQueue st) (Windows st)", OF y i0])
       (rule tick_inv_body)
  then obtain ys where inv: "MasterLockHeld (fst y)" "PostTickWorkQueue (snd y) = ?P"
    "RegularQueue (fst y) = RegularQueue st @ ys" "\<forall>e \<in> set ys. \<exists>a. e = WriteBehind a"
    "CcPostTickWorkQueue (fst y) =
       map EventSet (concat (map (Arrivals env) [Windows st..<Windows (fst y)]))"
    by (auto simp: tick_inv_def)
  let ?m = "queue_post_tick ?P (fst y)"
  let ?st' = "scan_finish (fst y) (snd y)"
  have res: "CcLazyWriteScan env st = Some ?st'"
    using assms(1) y by (simp add: busy_start)
  have fin: "?st' = CcScheduleLazyWriteScan False
             (if \<not> IsListEmpty (CcDeferredWrites ?m)
              then CcPostDeferredWrites (CcReleaseMasterLock ?m)
              else CcReleaseMasterLock ?m)"
    by (simp add: scan_finish_def Let_def inv(2) CcReleaseMasterLock_def)
  have frame: "RegularQueue ?st' = RegularQueue ?m" "\<not> MasterLockHeld ?st'"
    "CcPostTickWorkQueue ?st' = CcPostTickWorkQueue (fst y)" "Windows ?st' = Windows (fst y)"
    unfolding fin
    by (simp_all add: CcScheduleLazyWriteScan_def schedule_stmts_def CcPostDeferredWrites_def
        CcReleaseMasterLock_def)
  have "CcLazyWriteScan env st = Some ?st' \<and>
     fst (scan_start (CcAcquireMasterLock st)) =
       snd (scan_budget (CcAcquireMasterLock st\<lparr>CcPostTickWorkQueue := []\<rparr>)) \<and>
     PostTickWorkQueue (snd (scan_start (CcAcquireMasterLock st))) = CcPostTickWorkQueue st \<and>
     MasterLockHeld ?m \<and>
     RegularQueue ?m = RegularQueue st @ ys @ CcPostTickWorkQueue st \<and>
     (\<forall>e \<in> set ys. \<exists>a. e = WriteBehind a) \<and>
     ?st' = CcScheduleLazyWriteScan False
             (if \<not> IsListEmpty (CcDeferredWrites ?m)
              then CcPostDeferredWrites (CcReleaseMasterLock ?m)
              else CcReleaseMasterLock ?m) \<and>
     RegularQueue ?st' = RegularQueue ?m \<and>
     \<not> MasterLockHeld ?st' \<and>
     CcPostTickWorkQueue ?st' =
       map EventSet (concat (map (Arrivals env) [Windows st..<Windows ?st']))"
    using res fin frame inv scan_start_drained(1) [of ?st0]
    by (simp add: scan_start_drained(2) st0)
  then show ?thesis by blast
qed

lemmas scan_eval =
  scan_body_def scan_condition_def set_PagesToWrite_def adjust_targets_def scan_pin_def
  scan_unpin_def scan_post_def scan_courtesy_def scan_advance_def update_scm_def
  CcAllocateWorkQueueEntry_def other_threads_eq CcPostWorkQueue_def queue_update_def
  CcAcquireMasterLock_def CcReleaseMasterLock_def lazy_close_or_empty_def
  InsertTailList_def IsListEmpty_def RemoveEntryList_def Flink_def CcLazyWriterCursor_def
  FlagOn_def SetFlag_def ClearFlag_def WRITE_QUEUED_def IS_CURSOR_def
  MODIFIED_WRITE_DISABLED_def WAITING_FOR_TEARDOWN_def FO_TEMPORARY_FILE_def
  MAX_WRITE_BEHIND_def PAGE_SIZE_def Let_def split_def

lemma scenario_P_entry:
  "scan_start (CcAcquireMasterLock scenario_P) =
     (scenario_A\<lparr>CcPagesWrittenLastTime := 12, CcPagesYetToWrite := 12, MasterLockHeld := True\<rparr>,
      \<lparr>l_PagesToWrite = 12, SharedCacheMap = 2, FirstVisited = None, LoopsWithLockHeld = 0,
       AlreadyMoved = False, MoveBehindCursor = False, PostTickWorkQueue = [EventSet 4]\<rparr>)"
  by (simp add: scan_start_eq scenario_P_def scenario_A_def CcAcquireMasterLock_def
      final_PagesToWrite_def EstimatedDirtyNextInterval_def initial_PagesToWrite_def
      ForegroundRate_def LAZY_WRITER_MAX_AGE_TARGET_def Flink_def CcLazyWriterCursor_def)

lemma scenario_P_turn1:
  "scan_body arrival_env
     (scenario_A\<lparr>CcPagesWrittenLastTime := 12, CcPagesYetToWrite := 12, MasterLockHeld := True\<rparr>)
     \<lparr>l_PagesToWrite = 12, SharedCacheMap = 2, FirstVisited = None, LoopsWithLockHeld = 0,
      AlreadyMoved = False, MoveBehindCursor = False, PostTickWorkQueue = [EventSet 4]\<rparr> =
   (False, scenario_P_loop1,
    \<lparr>l_PagesToWrite = 0, SharedCacheMap = 3, FirstVisited = Some 2, LoopsWithLockHeld = 0,
     AlreadyMoved = True, MoveBehindCursor = False, PostTickWorkQueue = [EventSet 4]\<rparr>)"
  by (simp add: scan_eval scenario_A_def stream_A_def cursor_node_def arrival_env_def
      quiet_env_def scenario_P_loop1_def stream_A_queued_def stream_A_pinned_def fun_upd_same)

lemma scenario_P_turn2:
  "scan_body arrival_env scenario_P_loop1
    \<lparr>l_PagesToWrite = 0, SharedCacheMap = 3, FirstVisited = Some 2, LoopsWithLockHeld = 0,
     AlreadyMoved = True, MoveBehindCursor = False, PostTickWorkQueue = [EventSet 4]\<rparr> =
   (False, scenario_P_loop1,
    \<lparr>l_PagesToWrite = 0, SharedCacheMap = 0, FirstVisited = Some 2, LoopsWithLockHeld = 1,
     AlreadyMoved = True, MoveBehindCursor = False, PostTickWorkQueue = [EventSet 4]\<rparr>)"
proof -
  have s: "Scm scenario_P_loop1 3 = cursor_node" "DirtyList scenario_P_loop1 = [0, 2, 3]"
    by (simp_all add: scenario_P_loop1_def scenario_A_def CcLazyWriterCursor_def)
  have c: "scan_condition arrival_env sz 0 3 cursor_node = (False, cursor_node)"
    for sz by (simp add: scan_condition_def cursor_node_def FlagOn_def IS_CURSOR_def
        WRITE_QUEUED_def)
  have cf: "FlagOn (Flags cursor_node) (WRITE_QUEUED OR IS_CURSOR)"
    by (simp add: cursor_node_def FlagOn_def IS_CURSOR_def WRITE_QUEUED_def)
  have u: "update_scm 3 (\<lambda>_. cursor_node) scenario_P_loop1 = scenario_P_loop1"
    using s(1) by (simp add: update_scm_def fun_upd_idem)
  show ?thesis
    by (simp add: scan_body_def Let_def s c u cf scan_courtesy_def scan_advance_def Flink_def)
qed

lemma scenario_P_loop:
  "scan_loop arrival_env
     (scenario_A\<lparr>CcPagesWrittenLastTime := 12, CcPagesYetToWrite := 12, MasterLockHeld := True\<rparr>)
     \<lparr>l_PagesToWrite = 12, SharedCacheMap = 2, FirstVisited = None, LoopsWithLockHeld = 0,
      AlreadyMoved = False, MoveBehindCursor = False, PostTickWorkQueue = [EventSet 4]\<rparr> =
   Some (scenario_P_loop1,
    \<lparr>l_PagesToWrite = 0, SharedCacheMap = 0, FirstVisited = Some 2, LoopsWithLockHeld = 1,
     AlreadyMoved = True, MoveBehindCursor = False, PostTickWorkQueue = [EventSet 4]\<rparr>)"
  apply (subst scan_loop.simps)
  apply (simp add: scan_continues_def CcLazyWriterCursor_def scenario_P_turn1)
  apply (subst scan_loop.simps)
  apply (simp add: scan_continues_def CcLazyWriterCursor_def scenario_P_turn2)
  apply (subst scan_loop.simps)
  apply (simp add: scan_continues_def CcLazyWriterCursor_def)
  done

lemma scenario_P_run:
  "CcLazyWriteScan arrival_env scenario_P = Some scenario_P_after"
proof -
  have b: "\<not> (CcTotalDirtyPages scenario_P = 0 \<and> \<not> OtherWork scenario_P)"
    by (simp add: scenario_P_def)
  have f: "scan_finish scenario_P_loop1
      \<lparr>l_PagesToWrite = 0, SharedCacheMap = 0, FirstVisited = Some 2, LoopsWithLockHeld = 1,
       AlreadyMoved = True, MoveBehindCursor = False, PostTickWorkQueue = [EventSet 4]\<rparr> =
      scenario_P_after"
    by (simp add: scan_finish_def Let_def CcPostWorkQueue_def queue_update_def
        CcReleaseMasterLock_def IsListEmpty_def InsertTailList_def CcScheduleLazyWriteScan_def
        schedule_stmts_def scenario_P_after_def scenario_P_loop1_def scenario_A_def)
  show ?thesis
    by (simp add: busy_start [OF b] scenario_P_entry scenario_P_loop f)
qed

text \<open>
  The theorem on \<open>scenario_P\<close>: the waiting event entry follows the write-behind
  entry of the tick on the regular queue, and the event queued during the tick stays on the
  post-tick queue.
\<close>

theorem post_tick_entries_reach_regular_queue_witness:
  "CcLazyWriteScan arrival_env scenario_P = Some scenario_P_after \<and>
   CcPostTickWorkQueue scenario_P = [EventSet 4] \<and>
   RegularQueue scenario_P_after = [WriteBehind 2, EventSet 4] \<and>
   CcPostTickWorkQueue scenario_P_after = [EventSet 8] \<and>
   Arrivals arrival_env 0 = [8] \<and>
   \<not> MasterLockHeld scenario_P_after"
proof -
  have h: "\<not> (CcTotalDirtyPages scenario_P = 0 \<and> \<not> OtherWork scenario_P)"
    "distinct (DirtyList scenario_P)" "CcLazyWriterCursor \<in> set (DirtyList scenario_P)"
    by (simp_all add: scenario_P_def scenario_A_def CcLazyWriterCursor_def)
  from post_tick_entries_reach_regular_queue [OF h, of arrival_env]
  obtain st' m ys where a: "CcLazyWriteScan arrival_env scenario_P = Some st' \<and>
     fst (scan_start (CcAcquireMasterLock scenario_P)) =
       snd (scan_budget (CcAcquireMasterLock scenario_P\<lparr>CcPostTickWorkQueue := []\<rparr>)) \<and>
     PostTickWorkQueue (snd (scan_start (CcAcquireMasterLock scenario_P))) =
       CcPostTickWorkQueue scenario_P \<and>
     MasterLockHeld m \<and>
     RegularQueue m = RegularQueue scenario_P @ ys @ CcPostTickWorkQueue scenario_P \<and>
     (\<forall>e \<in> set ys. \<exists>a. e = WriteBehind a) \<and>
     st' = CcScheduleLazyWriteScan False
             (if \<not> IsListEmpty (CcDeferredWrites m)
              then CcPostDeferredWrites (CcReleaseMasterLock m)
              else CcReleaseMasterLock m) \<and>
     RegularQueue st' = RegularQueue m \<and>
     \<not> MasterLockHeld st' \<and>
     CcPostTickWorkQueue st' =
       map EventSet (concat (map (Arrivals arrival_env) [Windows scenario_P..<Windows st']))"
    by (elim exE)
  then have r: "CcLazyWriteScan arrival_env scenario_P = Some st'"
    and q: "\<not> MasterLockHeld st'"
    and p: "CcPostTickWorkQueue st' =
       map EventSet (concat (map (Arrivals arrival_env) [Windows scenario_P..<Windows st']))"
    by blast+
  from r have e: "st' = scenario_P_after" by (simp add: scenario_P_run)
  have v: "Windows scenario_P = 0" "Windows scenario_P_after = 1"
    "CcPostTickWorkQueue scenario_P = [EventSet 4]"
    "RegularQueue scenario_P_after = [WriteBehind 2, EventSet 4]"
    by (simp_all add: scenario_P_def scenario_P_after_def scenario_P_loop1_def scenario_A_def)
  from p have "CcPostTickWorkQueue scenario_P_after = [EventSet 8]"
    unfolding e v by (simp add: arrival_env_def)
  with r q v show ?thesis unfolding e by (simp add: arrival_env_def)
qed

end
